theory Spec2Isabelle
  imports Complex_Main "HOL-Library.Log_Nat"
begin

section \<open>JavaScript numbers\<close>

text \<open>
  \<open>buildRows\<close> in \<open>script.js\<close> computes on JavaScript Numbers, that is on IEEE 754
  binary64 values with round-to-nearest, ties-to-even. A Number is modelled as the real
  it denotes, or one of the two infinities, or NaN. The two zeros are identified: the
  code never divides by a variable and compares only with \<open><\<close>, \<open><=\<close> and
  \<open>===\<close>, none of which tells \<open>-0\<close> from \<open>+0\<close>.
\<close>

datatype jsnum = Finite real | PosInf | NegInf | NaN

subsection \<open>Rounding a real to binary64\<close>

definition pow2 :: "int \<Rightarrow> real" where
  "pow2 e = (if 0 \<le> e then 2 ^ nat e else 1 / 2 ^ nat (- e))"

text \<open>\<open>flog2 a\<close> is \<open>\<lfloor>log\<^sub>2 a\<rfloor>\<close> for \<open>a > 0\<close>, computed on bit lengths.\<close>

definition flog2 :: "real \<Rightarrow> int" where
  "flog2 a = (if 1 \<le> a then bitlen \<lfloor>a\<rfloor> - 1 else - bitlen (\<lceil>1 / a\<rceil> - 1))"

text \<open>
  The exponent of the unit in the last place: 52 below the leading bit for a normal
  number, \<open>-1074\<close> throughout the subnormal range.
\<close>

definition expo :: "real \<Rightarrow> int" where
  "expo a = max (- 1074) (flog2 a - 52)"

definition ties_even :: "real \<Rightarrow> int \<Rightarrow> int" where
  "ties_even x f =
     (if x - of_int f < 1 / 2 then f
      else if 1 / 2 < x - of_int f then f + 1
      else if even f then f else f + 1)"

definition rne :: "real \<Rightarrow> int" where
  "rne x = ties_even x \<lfloor>x\<rfloor>"

definition quantize :: "real \<Rightarrow> int \<Rightarrow> real" where
  "quantize a e = of_int (rne (a / pow2 e)) * pow2 e"

definition overflow :: "real \<Rightarrow> real \<Rightarrow> jsnum" where
  "overflow q v =
     (if pow2 1024 \<le> v then (if 0 < q then PosInf else NegInf)
      else Finite (if q < 0 then - v else v))"

definition rnd :: "real \<Rightarrow> jsnum" where
  "rnd q = overflow q (quantize \<bar>q\<bar> (expo \<bar>q\<bar>))"

subsection \<open>Arithmetic, comparison and the \<open>Math\<close> functions used by the code\<close>

fun jneg :: "jsnum \<Rightarrow> jsnum" where
  "jneg (Finite a) = Finite (- a)"
| "jneg PosInf = NegInf"
| "jneg NegInf = PosInf"
| "jneg NaN = NaN"

fun jadd :: "jsnum \<Rightarrow> jsnum \<Rightarrow> jsnum" where
  "jadd (Finite a) (Finite b) = rnd (a + b)"
| "jadd NaN y = NaN"
| "jadd (Finite a) y = y"
| "jadd PosInf NegInf = NaN"
| "jadd PosInf NaN = NaN"
| "jadd PosInf y = PosInf"
| "jadd NegInf PosInf = NaN"
| "jadd NegInf NaN = NaN"
| "jadd NegInf y = NegInf"

definition jsub :: "jsnum \<Rightarrow> jsnum \<Rightarrow> jsnum" where
  "jsub x y = jadd x (jneg y)"

fun sign_of :: "jsnum \<Rightarrow> real" where
  "sign_of (Finite a) = sgn a"
| "sign_of PosInf = 1"
| "sign_of NegInf = - 1"
| "sign_of NaN = 0"

definition signed_inf :: "real \<Rightarrow> jsnum" where
  "signed_inf s = (if s = 0 then NaN else if 0 < s then PosInf else NegInf)"

fun jmul :: "jsnum \<Rightarrow> jsnum \<Rightarrow> jsnum" where
  "jmul (Finite a) (Finite b) = rnd (a * b)"
| "jmul NaN y = NaN"
| "jmul x NaN = NaN"
| "jmul x y = signed_inf (sign_of x * sign_of y)"

text \<open>
  Division. A zero divisor is read as \<open>+0\<close>; \<open>buildRows\<close> divides by the literal
  \<open>100\<close> only.
\<close>

fun jdiv :: "jsnum \<Rightarrow> jsnum \<Rightarrow> jsnum" where
  "jdiv (Finite a) (Finite b) = (if b = 0 then signed_inf (sgn a) else rnd (a / b))"
| "jdiv NaN y = NaN"
| "jdiv x NaN = NaN"
| "jdiv (Finite a) y = Finite 0"
| "jdiv x (Finite b) = signed_inf (sign_of x * (if b < 0 then - 1 else 1))"
| "jdiv x y = NaN"

fun jlt :: "jsnum \<Rightarrow> jsnum \<Rightarrow> bool" where
  "jlt (Finite a) (Finite b) = (a < b)"
| "jlt NaN y = False"
| "jlt x NaN = False"
| "jlt x NegInf = False"
| "jlt PosInf y = False"
| "jlt x y = True"

fun jle :: "jsnum \<Rightarrow> jsnum \<Rightarrow> bool" where
  "jle (Finite a) (Finite b) = (a \<le> b)"
| "jle NaN y = False"
| "jle x NaN = False"
| "jle NegInf y = True"
| "jle x PosInf = True"
| "jle x y = False"

fun Number_isFinite :: "jsnum \<Rightarrow> bool" where
  "Number_isFinite (Finite a) = True"
| "Number_isFinite x = False"

definition Number_EPSILON :: jsnum where
  "Number_EPSILON = Finite (1 / 2 ^ 52)"

fun Math_floor :: "jsnum \<Rightarrow> jsnum" where
  "Math_floor (Finite a) = Finite (of_int \<lfloor>a\<rfloor>)"
| "Math_floor x = x"

text \<open>\<open>Math.round\<close> rounds to the nearest integer, a half towards \<open>+\<infinity>\<close>.\<close>

fun Math_round :: "jsnum \<Rightarrow> jsnum" where
  "Math_round (Finite a) = Finite (of_int \<lfloor>a + 1 / 2\<rfloor>)"
| "Math_round x = x"

definition Math_min :: "jsnum \<Rightarrow> jsnum \<Rightarrow> jsnum" where
  "Math_min x y = (if x = NaN \<or> y = NaN then NaN else if jlt y x then y else x)"

definition Math_max :: "jsnum \<Rightarrow> jsnum \<Rightarrow> jsnum" where
  "Math_max x y = (if x = NaN \<or> y = NaN then NaN else if jlt x y then y else x)"

section \<open>JavaScript values and the parameter object\<close>

text \<open>
  A property of the parameter object holds a primitive: \<open>undefined\<close> (also what
  reading an absent property gives), \<open>null\<close>, a boolean, a Number or a string.
\<close>

datatype jsval = JUndefined | JNull | JBool bool | JNum jsnum | JStr string

text \<open>
  \<open>Number(v)\<close>. The conversion of a non-empty string is the built-in
  \<open>StringToNumber\<close>, which is not part of the repository: it is the parameter
  \<open>str2num\<close>. The empty string converts to \<open>0\<close>.
\<close>

fun Number :: "(string \<Rightarrow> jsnum) \<Rightarrow> jsval \<Rightarrow> jsnum" where
  "Number str2num JUndefined = NaN"
| "Number str2num JNull = Finite 0"
| "Number str2num (JBool b) = (if b then Finite 1 else Finite 0)"
| "Number str2num (JNum n) = n"
| "Number str2num (JStr s) = (if s = [] then Finite 0 else str2num s)"

record params =
  p_startingCapital :: jsval
  p_incomeMonthly :: jsval
  p_expensesMonthly :: jsval
  p_incomeGrowthPct :: jsval
  p_returnPct :: jsval
  p_inflationPct :: jsval
  p_years :: jsval
  p_contributionInterestFactor :: jsval

record row =
  year :: jsnum
  incomeMonthly :: jsnum
  expensesMonthly :: jsnum
  deltaMonthly :: jsnum
  contribution :: jsnum
  capitalStart :: jsnum
  interestOnStart :: jsnum
  interestOnContribution :: jsnum
  capitalEnd :: jsnum

section \<open>\<open>buildRows\<close>\<close>

text \<open>
  The function \<open>buildRows\<close> of \<open>script.js\<close> (lines 628 to 676, the same text in
  the second copy of the page script) with its helper \<open>round2\<close> (lines 678 to 680),
  statement by statement.
\<close>

definition toFinite :: "(string \<Rightarrow> jsnum) \<Rightarrow> jsval \<Rightarrow> jsnum \<Rightarrow> jsnum" where
  "toFinite str2num v fb = (let n = Number str2num v in if Number_isFinite n then n else fb)"

definition toPct :: "(string \<Rightarrow> jsnum) \<Rightarrow> jsval \<Rightarrow> jsnum" where
  "toPct str2num v = jdiv (toFinite str2num v (Finite 0)) (Finite 100)"

definition round2 :: "jsnum \<Rightarrow> jsnum" where
  "round2 x = jdiv (Math_round (jmul (jadd x Number_EPSILON) (Finite 100))) (Finite 100)"

text \<open>The three variables the loop updates.\<close>

record locals =
  cur_capitalStart :: jsnum
  cur_incomeMonthly :: jsnum
  cur_expensesMonthly :: jsnum

text \<open>The constants of one loop body, from the variables at its start.\<close>

definition deltaMonthly_raw :: "locals \<Rightarrow> jsnum" where
  "deltaMonthly_raw v = jsub (cur_incomeMonthly v) (cur_expensesMonthly v)"

definition contribution_raw :: "locals \<Rightarrow> jsnum" where
  "contribution_raw v = jmul (deltaMonthly_raw v) (Finite 12)"

definition interestOnStart_raw :: "jsnum \<Rightarrow> locals \<Rightarrow> jsnum" where
  "interestOnStart_raw r v = jmul (cur_capitalStart v) r"

definition interestOnContribution_raw :: "jsnum \<Rightarrow> jsnum \<Rightarrow> locals \<Rightarrow> jsnum" where
  "interestOnContribution_raw r k v = jmul (jmul (contribution_raw v) r) k"

text \<open>The sum of the year before the floor, in the order the code adds.\<close>

definition capitalEnd_raw :: "jsnum \<Rightarrow> jsnum \<Rightarrow> locals \<Rightarrow> jsnum" where
  "capitalEnd_raw r k v =
     jadd (jadd (jadd (cur_capitalStart v) (contribution_raw v)) (interestOnStart_raw r v))
       (interestOnContribution_raw r k v)"

text \<open>\<open>if (capitalEnd < 0) capitalEnd = 0\<close>.\<close>

definition capitalEnd_floored :: "jsnum \<Rightarrow> jsnum \<Rightarrow> locals \<Rightarrow> jsnum" where
  "capitalEnd_floored r k v =
     (if jlt (capitalEnd_raw r k v) (Finite 0) then Finite 0 else capitalEnd_raw r k v)"

text \<open>The object pushed in year \<open>y\<close>.\<close>

definition emit :: "jsnum \<Rightarrow> jsnum \<Rightarrow> jsnum \<Rightarrow> locals \<Rightarrow> row" where
  "emit r k y v =
     \<lparr> year = y,
       incomeMonthly = round2 (cur_incomeMonthly v),
       expensesMonthly = round2 (cur_expensesMonthly v),
       deltaMonthly = round2 (deltaMonthly_raw v),
       contribution = round2 (contribution_raw v),
       capitalStart = round2 (cur_capitalStart v),
       interestOnStart = round2 (interestOnStart_raw r v),
       interestOnContribution = round2 (interestOnContribution_raw r k v),
       capitalEnd = round2 (capitalEnd_floored r k v) \<rparr>"

text \<open>The three assignments that close the loop body.\<close>

definition advance :: "jsnum \<Rightarrow> jsnum \<Rightarrow> jsnum \<Rightarrow> jsnum \<Rightarrow> locals \<Rightarrow> locals" where
  "advance gIncome r infl k v =
     \<lparr> cur_capitalStart = capitalEnd_floored r k v,
       cur_incomeMonthly = jmul (cur_incomeMonthly v) (jadd (Finite 1) gIncome),
       cur_expensesMonthly = jmul (cur_expensesMonthly v) (jadd (Finite 1) infl) \<rparr>"

text \<open>
  \<open>for (let y = 1; y <= years; y++)\<close>, with the rows pushed so far. The counter is a
  Number as in the code; a loop that never leaves is the value \<open>None\<close>.
\<close>

partial_function (option) loop ::
  "jsnum \<Rightarrow> jsnum \<Rightarrow> jsnum \<Rightarrow> jsnum \<Rightarrow> jsnum \<Rightarrow> jsnum \<Rightarrow> locals \<Rightarrow> row list
   \<Rightarrow> row list option" where
  "loop gIncome r infl k years y v rows =
     (if jle y years
      then loop gIncome r infl k years (jadd y (Finite 1)) (advance gIncome r infl k v)
             (rows @ [emit r k y v])
      else Some rows)"

declare loop.simps [code]

definition years_of :: "(string \<Rightarrow> jsnum) \<Rightarrow> params \<Rightarrow> jsnum" where
  "years_of str2num p =
     Math_max (Finite 1)
       (Math_min (Finite 60) (Math_floor (toFinite str2num (p_years p) (Finite 1))))"

definition factor_of :: "(string \<Rightarrow> jsnum) \<Rightarrow> params \<Rightarrow> jsnum" where
  "factor_of str2num p =
     (if p_contributionInterestFactor p = JUndefined \<or> p_contributionInterestFactor p = JNull
         \<or> p_contributionInterestFactor p = JStr []
      then Finite 1
      else toFinite str2num (p_contributionInterestFactor p) (Finite 0))"

definition initial :: "(string \<Rightarrow> jsnum) \<Rightarrow> params \<Rightarrow> locals" where
  "initial str2num p =
     \<lparr> cur_capitalStart = toFinite str2num (p_startingCapital p) (Finite 0),
       cur_incomeMonthly = toFinite str2num (p_incomeMonthly p) (Finite 0),
       cur_expensesMonthly = toFinite str2num (p_expensesMonthly p) (Finite 0) \<rparr>"

definition buildRows :: "(string \<Rightarrow> jsnum) \<Rightarrow> params \<Rightarrow> row list option" where
  "buildRows str2num p =
     loop (toPct str2num (p_incomeGrowthPct p)) (toPct str2num (p_returnPct p))
       (toPct str2num (p_inflationPct p)) (factor_of str2num p) (years_of str2num p)
       (Finite 1) (initial str2num p) []"

section \<open>Derived notions used to state the properties\<close>

text \<open>
  The rows of \<open>n\<close> consecutive iterations starting in year \<open>y\<close> with the variables
  \<open>v\<close>: the loop with its counter read as a natural number.
\<close>

fun rows_from ::
  "jsnum \<Rightarrow> jsnum \<Rightarrow> jsnum \<Rightarrow> jsnum \<Rightarrow> nat \<Rightarrow> nat \<Rightarrow> locals \<Rightarrow> row list" where
  "rows_from gIncome r infl k 0 y v = []"
| "rows_from gIncome r infl k (Suc n) y v =
     emit r k (Finite (of_nat y)) v
       # rows_from gIncome r infl k n (Suc y) (advance gIncome r infl k v)"

text \<open>The variables when iteration \<open>j + 1\<close> begins (\<open>j\<close> counts from \<open>0\<close>).\<close>

definition locals_at :: "(string \<Rightarrow> jsnum) \<Rightarrow> params \<Rightarrow> nat \<Rightarrow> locals" where
  "locals_at str2num p j =
     ((advance (toPct str2num (p_incomeGrowthPct p)) (toPct str2num (p_returnPct p))
        (toPct str2num (p_inflationPct p)) (factor_of str2num p)) ^^ j) (initial str2num p)"

text \<open>
  The length the specification gives: \<open>clamp(floor(toFinite(years, 1)), 1, 60)\<close>.
\<close>

definition clamp :: "int \<Rightarrow> int \<Rightarrow> int \<Rightarrow> int" where
  "clamp x lo hi = max lo (min hi x)"

fun floor_of :: "jsnum \<Rightarrow> int" where
  "floor_of (Finite a) = \<lfloor>a\<rfloor>"
| "floor_of x = 0"

definition spec_length :: "(string \<Rightarrow> jsnum) \<Rightarrow> params \<Rightarrow> nat" where
  "spec_length str2num p =
     nat (clamp (floor_of (toFinite str2num (p_years p) (Finite 1))) 1 60)"

text \<open>A string conversion that recognises nothing, for inputs without strings.\<close>

definition all_NaN :: "string \<Rightarrow> jsnum" where
  "all_NaN s = NaN"

text \<open>The Number a decimal literal denotes: the nearest binary64 value.\<close>

definition lit :: "real \<Rightarrow> jsnum" where
  "lit d = rnd d"

text \<open>A finite Number of magnitude at most \<open>b\<close>.\<close>

fun mag_le :: "real \<Rightarrow> jsnum \<Rightarrow> bool" where
  "mag_le b (Finite a) = (\<bar>a\<bar> \<le> b)"
| "mag_le b x = False"

definition all_finite :: "row \<Rightarrow> bool" where
  "all_finite x =
     (Number_isFinite (incomeMonthly x) \<and> Number_isFinite (expensesMonthly x)
      \<and> Number_isFinite (deltaMonthly x) \<and> Number_isFinite (contribution x)
      \<and> Number_isFinite (capitalStart x) \<and> Number_isFinite (interestOnStart x)
      \<and> Number_isFinite (interestOnContribution x) \<and> Number_isFinite (capitalEnd x))"

text \<open>
  Inputs far from the binary64 range: money up to \<open>2\<^sup>5\<^sup>0\<^sup>0\<close>, percentages up to
  1600, a factor up to 1, each in magnitude and after coercion.
\<close>

definition bounded_input :: "(string \<Rightarrow> jsnum) \<Rightarrow> params \<Rightarrow> bool" where
  "bounded_input str2num p =
     (mag_le (2 ^ 500) (toFinite str2num (p_startingCapital p) (Finite 0))
      \<and> mag_le (2 ^ 500) (toFinite str2num (p_incomeMonthly p) (Finite 0))
      \<and> mag_le (2 ^ 500) (toFinite str2num (p_expensesMonthly p) (Finite 0))
      \<and> mag_le 1600 (toFinite str2num (p_incomeGrowthPct p) (Finite 0))
      \<and> mag_le 1600 (toFinite str2num (p_returnPct p) (Finite 0))
      \<and> mag_le 1600 (toFinite str2num (p_inflationPct p) (Finite 0))
      \<and> mag_le 1 (factor_of str2num p))"

text \<open>What the loop keeps within reach of binary64 over its at most 60 iterations.\<close>

definition in_range :: "nat \<Rightarrow> locals \<Rightarrow> bool" where
  "in_range t v =
     (mag_le (pow2 (500 + 5 * int t)) (cur_incomeMonthly v)
      \<and> mag_le (pow2 (500 + 5 * int t)) (cur_expensesMonthly v)
      \<and> mag_le (pow2 (509 + 7 * int t)) (cur_capitalStart v))"

text \<open>A property that is absent, \<open>null\<close>, \<open>undefined\<close>, the empty string or NaN.\<close>

definition malformed :: "jsval \<Rightarrow> bool" where
  "malformed v = (v = JUndefined \<or> v = JNull \<or> v = JStr [] \<or> v = JNum NaN)"

definition all_malformed :: "params \<Rightarrow> bool" where
  "all_malformed p =
     (malformed (p_startingCapital p) \<and> malformed (p_incomeMonthly p)
      \<and> malformed (p_expensesMonthly p) \<and> malformed (p_incomeGrowthPct p)
      \<and> malformed (p_returnPct p) \<and> malformed (p_inflationPct p)
      \<and> malformed (p_years p) \<and> malformed (p_contributionInterestFactor p))"

text \<open>The identity between the three rounded fields of a row, in JavaScript arithmetic.\<close>

definition delta_identity :: "row \<Rightarrow> bool" where
  "delta_identity x = (deltaMonthly x = jsub (incomeMonthly x) (expensesMonthly x))"

subsection \<open>The parameter objects of the scenarios\<close>

definition scenario_A :: params where
  "scenario_A = \<lparr> p_startingCapital = JNum (Finite 0), p_incomeMonthly = JNum (Finite 5589),
     p_expensesMonthly = JNum (Finite 4000), p_incomeGrowthPct = JNum (Finite 10),
     p_returnPct = JNum (Finite 15), p_inflationPct = JNum (Finite 5),
     p_years = JNum (Finite 1), p_contributionInterestFactor = JNum (Finite (1 / 2)) \<rparr>"

definition scenario_B :: params where
  "scenario_B = \<lparr> p_startingCapital = JNum (Finite 5000), p_incomeMonthly = JNum (Finite 1000),
     p_expensesMonthly = JNum (Finite 2000), p_incomeGrowthPct = JNum (Finite 0),
     p_returnPct = JNum (Finite 10), p_inflationPct = JNum (Finite 0),
     p_years = JNum (Finite 1), p_contributionInterestFactor = JNum (Finite (1 / 2)) \<rparr>"


definition scenario_D :: params where
  "scenario_D = \<lparr> p_startingCapital = JNum NaN, p_incomeMonthly = JStr [],
     p_expensesMonthly = JUndefined, p_incomeGrowthPct = JStr [],
     p_returnPct = JStr [], p_inflationPct = JNull,
     p_years = JStr [], p_contributionInterestFactor = JStr [] \<rparr>"

text \<open>An object that holds the three amounts and \<open>years\<close> and nothing else.\<close>

definition money_params :: "jsval \<Rightarrow> jsval \<Rightarrow> jsval \<Rightarrow> jsval \<Rightarrow> params" where
  "money_params sc inc ex yrs = \<lparr> p_startingCapital = sc, p_incomeMonthly = inc,
     p_expensesMonthly = ex, p_incomeGrowthPct = JUndefined,
     p_returnPct = JUndefined, p_inflationPct = JUndefined,
     p_years = yrs, p_contributionInterestFactor = JUndefined \<rparr>"

text \<open>An income of \<open>1e308\<close>, which is a finite Number.\<close>

definition huge_income :: params where
  "huge_income = money_params JUndefined (JNum (lit (10 ^ 308))) JUndefined JUndefined"

text \<open>An income of \<open>100.0004\<close> over two years.\<close>

definition fractional_income :: params where
  "fractional_income =
     money_params JUndefined (JNum (lit (1000004 / 10000))) JUndefined (JNum (Finite 2))"

text \<open>An income of \<open>1000.004\<close> against expenses of \<open>500.008\<close>.\<close>

definition fractional_budget :: params where
  "fractional_budget =
     money_params JUndefined (JNum (lit (1000004 / 1000))) (JNum (lit (500008 / 1000)))
       JUndefined"

text \<open>A starting capital of \<open>-1\<close> over two years.\<close>

definition in_debt :: params where
  "in_debt = money_params (JNum (Finite (- 1))) JUndefined JUndefined (JNum (Finite 2))"

section \<open>Facts about rounding\<close>

lemma pow2_powi: "pow2 e = 2 powi e"
  by (simp add: pow2_def power_int_def inverse_eq_divide power_one_over)

lemma pow2_pos: "0 < pow2 e"
  by (simp add: pow2_powi)

lemma pow2_add: "pow2 (a + b) = pow2 a * pow2 b"
  by (simp add: pow2_powi power_int_add)

lemma pow2_mono: "a \<le> b \<Longrightarrow> pow2 a \<le> pow2 b"
  by (simp add: pow2_powi power_int_increasing)

lemma pow2_strict_mono: "a < b \<Longrightarrow> pow2 a < pow2 b"
  by (simp add: pow2_powi power_int_strict_increasing)

lemma pow2_is_int: "0 \<le> e \<Longrightarrow> pow2 e = of_int (2 ^ nat e)"
  by (simp add: pow2_def)

lemma flog2_bounds:
  assumes "0 < a"
  shows "pow2 (flog2 a) \<le> a" and "a < pow2 (flog2 a + 1)"
proof -
  have "pow2 (flog2 a) \<le> a \<and> a < pow2 (flog2 a + 1)"
  proof (cases "1 \<le> a")
    case True
    define n where "n = \<lfloor>a\<rfloor>"
    have n: "0 < n" using True by (simp add: n_def)
    have fl: "flog2 a = bitlen n - 1" using True by (simp add: flog2_def n_def)
    have b1: "1 \<le> bitlen n" using n by (simp add: bitlen_alt_def)
    from bitlen_bounds [OF n] have lo: "2 ^ nat (bitlen n - 1) \<le> n" and hi: "n < 2 ^ nat (bitlen n)"
      by auto
    have "pow2 (bitlen n - 1) = of_int (2 ^ nat (bitlen n - 1))"
      using b1 by (simp add: pow2_def)
    also have "\<dots> \<le> of_int n" using lo by (simp only: of_int_le_iff)
    also have "\<dots> \<le> a" by (simp add: n_def)
    finally have A: "pow2 (flog2 a) \<le> a" by (simp add: fl)
    have "n + 1 \<le> 2 ^ nat (bitlen n)" using hi by simp
    then have "(of_int (n + 1) :: real) \<le> of_int (2 ^ nat (bitlen n))"
      by (simp only: of_int_le_iff)
    moreover have "a < of_int (n + 1)" by (simp add: n_def)
    ultimately have "a < of_int (2 ^ nat (bitlen n))" by linarith
    also have "\<dots> = pow2 (bitlen n)" using b1 by (simp add: pow2_def)
    finally have B: "a < pow2 (flog2 a + 1)" by (simp add: fl)
    from A B show ?thesis ..
  next
    case False
    define b where "b = 1 / a"
    define c where "c = \<lceil>b\<rceil>"
    have b: "1 < b" using False assms by (simp add: b_def)
    have c: "0 < c - 1" using b by (simp add: c_def less_ceiling_iff)
    have fl: "flog2 a = - bitlen (c - 1)" using False by (simp add: flog2_def b_def c_def)
    have b1: "1 \<le> bitlen (c - 1)" using c by (simp add: bitlen_alt_def)
    from bitlen_bounds [OF c] have lo: "2 ^ nat (bitlen (c - 1) - 1) \<le> c - 1"
      and hi: "c - 1 < 2 ^ nat (bitlen (c - 1))"
      by auto
    have cb: "of_int (c - 1) < b" "b \<le> of_int c"
      by (simp_all add: c_def) linarith
    have "c \<le> 2 ^ nat (bitlen (c - 1))" using hi by simp
    then have "(of_int c :: real) \<le> of_int (2 ^ nat (bitlen (c - 1)))"
      by (simp only: of_int_le_iff)
    moreover have "(of_int (2 ^ nat (bitlen (c - 1))) :: real) = 2 ^ nat (bitlen (c - 1))"
      by simp
    ultimately have up: "b \<le> 2 ^ nat (bitlen (c - 1))" using cb by linarith
    have "(of_int (2 ^ nat (bitlen (c - 1) - 1)) :: real) \<le> of_int (c - 1)"
      using lo by (simp only: of_int_le_iff)
    moreover have "(of_int (2 ^ nat (bitlen (c - 1) - 1)) :: real) = 2 ^ nat (bitlen (c - 1) - 1)"
      by simp
    ultimately have dn: "2 ^ nat (bitlen (c - 1) - 1) < b" using cb by linarith
    have ab: "a = 1 / b" by (simp add: b_def)
    have e1: "pow2 (flog2 a) = 1 / 2 ^ nat (bitlen (c - 1))"
      using b1 by (auto simp add: fl pow2_def)
    have "1 / 2 ^ nat (bitlen (c - 1)) \<le> 1 / b"
      using up b by (simp add: field_simps)
    with e1 ab have A: "pow2 (flog2 a) \<le> a"
      by linarith
    have e2: "pow2 (flog2 a + 1) = 1 / 2 ^ nat (bitlen (c - 1) - 1)"
      using b1 by (auto simp add: fl pow2_def)
    have "1 / b < 1 / 2 ^ nat (bitlen (c - 1) - 1)"
      using dn b by (simp add: field_simps)
    with e2 ab have B: "a < pow2 (flog2 a + 1)"
      by linarith
    from A B show ?thesis ..
  qed
  then show "pow2 (flog2 a) \<le> a" and "a < pow2 (flog2 a + 1)" by auto
qed

lemma rne_of_int: "rne (of_int k) = k"
  by (simp add: rne_def ties_even_def)

lemma rne_nonneg: "0 \<le> x \<Longrightarrow> 0 \<le> rne x"
  by (simp add: rne_def ties_even_def)

lemma rne_le_int: "x \<le> of_int K \<Longrightarrow> rne x \<le> K"
  unfolding rne_def ties_even_def
  by (auto simp add: floor_le_iff)


lemma quantize_nonneg: "0 \<le> a \<Longrightarrow> 0 \<le> quantize a e"
  by (simp add: quantize_def rne_nonneg pow2_pos less_imp_le)

lemma quantize_exact: "quantize (of_int k * pow2 e) e = of_int k * pow2 e"
proof -
  have "of_int k * pow2 e / pow2 e = of_int k"
    using pow2_pos [of e] by simp
  then show ?thesis by (simp add: quantize_def rne_of_int)
qed

lemma quantize_le:
  assumes "a \<le> pow2 n" and "e \<le> n"
  shows "quantize a e \<le> pow2 n"
proof -
  have split: "pow2 n = pow2 (n - e) * pow2 e"
    using pow2_add [of "n - e" e] by simp
  have int: "pow2 (n - e) = of_int (2 ^ nat (n - e))"
    using assms(2) by (simp add: pow2_is_int)
  have "a / pow2 e \<le> pow2 (n - e)"
    using assms(1) pow2_pos [of e] by (simp add: split field_simps)
  then have "rne (a / pow2 e) \<le> 2 ^ nat (n - e)"
    unfolding int by (rule rne_le_int)
  then have "(of_int (rne (a / pow2 e)) :: real) \<le> of_int (2 ^ nat (n - e))"
    by (simp only: of_int_le_iff)
  then have "of_int (rne (a / pow2 e)) * pow2 e \<le> pow2 (n - e) * pow2 e"
    unfolding int using pow2_pos [of e] by (simp only: mult_le_cancel_right_pos)
  then show ?thesis by (simp add: quantize_def split)
qed

lemma flog2_le:
  assumes "0 < a" and "a \<le> pow2 n"
  shows "flog2 a \<le> n"
proof (rule ccontr)
  assume "\<not> flog2 a \<le> n"
  then have "n + 1 \<le> flog2 a" by simp
  then have "pow2 (n + 1) \<le> pow2 (flog2 a)" by (rule pow2_mono)
  moreover have "pow2 n < pow2 (n + 1)" by (rule pow2_strict_mono) simp
  ultimately show False using flog2_bounds(1) [OF assms(1)] assms(2) by linarith
qed

lemma rnd_zero: "rnd 0 = Finite 0"
  by (simp add: rnd_def overflow_def quantize_def rne_def ties_even_def pow2_pos not_le)

lemma rnd_nonneg:
  assumes "0 \<le> q"
  shows "rnd q = PosInf \<or> (\<exists>v. rnd q = Finite v \<and> 0 \<le> v)"
proof (cases "q = 0")
  case True
  then show ?thesis by (simp add: rnd_zero)
next
  case False
  with assms have "0 < q" by simp
  moreover have "0 \<le> quantize \<bar>q\<bar> (expo \<bar>q\<bar>)" by (rule quantize_nonneg) simp
  ultimately show ?thesis by (simp add: rnd_def overflow_def)
qed

lemma rnd_nonpos:
  assumes "q \<le> 0"
  shows "rnd q = NegInf \<or> (\<exists>v. rnd q = Finite v \<and> v \<le> 0)"
proof (cases "q = 0")
  case True
  then show ?thesis by (simp add: rnd_zero)
next
  case False
  with assms have "q < 0" by simp
  moreover have "0 \<le> quantize \<bar>q\<bar> (expo \<bar>q\<bar>)" by (rule quantize_nonneg) simp
  ultimately show ?thesis by (simp add: rnd_def overflow_def)
qed

lemma rnd_bound:
  assumes "\<bar>q\<bar> \<le> pow2 n" and "- 1022 \<le> n" and "n \<le> 1023"
  shows "\<exists>v. rnd q = Finite v \<and> \<bar>v\<bar> \<le> pow2 n"
proof (cases "q = 0")
  case True
  then show ?thesis using pow2_pos [of n] by (simp add: rnd_zero less_imp_le)
next
  case False
  define a where "a = \<bar>q\<bar>"
  have a: "0 < a" "a \<le> pow2 n" using False assms(1) by (simp_all add: a_def)
  have "flog2 a \<le> n" using a by (rule flog2_le)
  then have e: "expo a \<le> n" using assms(2) by (simp add: expo_def)
  have le: "quantize a (expo a) \<le> pow2 n" using a(2) e by (rule quantize_le)
  have ge: "0 \<le> quantize a (expo a)" using a(1) by (simp add: quantize_nonneg)
  have "pow2 n < pow2 1024" by (rule pow2_strict_mono) (use assms(3) in simp)
  with le have "\<not> pow2 1024 \<le> quantize a (expo a)" by simp
  then have "rnd q = Finite (if q < 0 then - quantize a (expo a) else quantize a (expo a))"
    by (simp add: rnd_def overflow_def a_def)
  moreover have "\<bar>if q < 0 then - quantize a (expo a) else quantize a (expo a)\<bar> \<le> pow2 n"
    using le ge by simp
  ultimately show ?thesis by blast
qed

lemma rnd_int_exact:
  assumes "\<bar>n\<bar> < 2 ^ 53"
  shows "rnd (of_int n) = Finite (of_int n)"
proof (cases "n = 0")
  case True
  then show ?thesis by (simp add: rnd_zero)
next
  case False
  define a :: real where "a = \<bar>of_int n\<bar>"
  have a_int: "a = of_int \<bar>n\<bar>" by (simp add: a_def)
  have a: "0 < a" using False by (simp add: a_def)
  have "a < of_int (2 ^ 53)" unfolding a_int using assms by (simp only: of_int_less_iff)
  then have lt: "a < pow2 53" by (simp add: pow2_def)
  have "flog2 a < 53"
  proof (rule ccontr)
    assume "\<not> flog2 a < 53"
    then have "pow2 53 \<le> pow2 (flog2 a)" by (intro pow2_mono) simp
    then show False using flog2_bounds(1) [OF a] lt by linarith
  qed
  then have e: "expo a \<le> 0" by (simp add: expo_def)
  define e where "e = expo a"
  have e0: "e \<le> 0" using e by (simp add: e_def)
  have "pow2 (- e) * pow2 e = 1" using pow2_add [of "- e" e] by (simp add: pow2_def)
  moreover have "pow2 (- e) = of_int (2 ^ nat (- e))" using e0 by (simp add: pow2_is_int)
  ultimately have "a = of_int (\<bar>n\<bar> * 2 ^ nat (- e)) * pow2 e"
    by (simp add: a_int mult.assoc)
  then have q: "quantize a e = a" using quantize_exact [of "\<bar>n\<bar> * 2 ^ nat (- e)" e] by simp
  have "pow2 53 < pow2 1024" by (rule pow2_strict_mono) simp
  with lt have "\<not> pow2 1024 \<le> a" by simp
  then have "rnd (of_int n) = Finite (if real_of_int n < 0 then - a else a)"
    using q by (simp add: rnd_def overflow_def a_def [symmetric] e_def)
  then show ?thesis by (simp add: a_def)
qed

lemma rnd_nat_exact:
  assumes "n < 2 ^ 53"
  shows "rnd (of_nat n) = Finite (of_nat n)"
proof -
  have "int n < int (2 ^ 53)" using assms by (simp only: of_nat_less_iff)
  then have "\<bar>int n\<bar> < 2 ^ 53" by simp
  from rnd_int_exact [OF this] show ?thesis by simp
qed

lemma flog2_less:
  assumes "0 < a" and "a < pow2 n"
  shows "flog2 a < n"
proof (rule ccontr)
  assume "\<not> flog2 a < n"
  then have "pow2 n \<le> pow2 (flog2 a)" by (intro pow2_mono) simp
  then show False using flog2_bounds(1) [OF assms(1)] assms(2) by linarith
qed

lemma flog2_pow2: "flog2 (pow2 k) = k"
proof -
  have "flog2 (pow2 k) \<le> k" by (rule flog2_le) (simp_all add: pow2_pos)
  moreover have "k < flog2 (pow2 k) + 1"
  proof (rule ccontr)
    assume "\<not> k < flog2 (pow2 k) + 1"
    then have "pow2 (flog2 (pow2 k) + 1) \<le> pow2 k" by (intro pow2_mono) simp
    then show False using flog2_bounds(2) [OF pow2_pos [of k]] by linarith
  qed
  ultimately show ?thesis by simp
qed

lemma rne_error: "\<bar>of_int (rne x) - x\<bar> \<le> 1 / 2"
  unfolding rne_def ties_even_def by (auto simp add: abs_le_iff)

lemma quantize_error: "\<bar>quantize a e - a\<bar> \<le> pow2 e / 2"
proof -
  have "quantize a e - a = (of_int (rne (a / pow2 e)) - a / pow2 e) * pow2 e"
    using pow2_pos [of e] by (simp add: quantize_def field_simps)
  then have "\<bar>quantize a e - a\<bar> = \<bar>of_int (rne (a / pow2 e)) - a / pow2 e\<bar> * pow2 e"
    using pow2_pos [of e] by (simp add: abs_mult)
  also have "\<dots> \<le> 1 / 2 * pow2 e"
    using rne_error [of "a / pow2 e"] pow2_pos [of e] by (intro mult_right_mono) simp_all
  finally show ?thesis by simp
qed

text \<open>The result of rounding is within half a unit in the last place of the argument.\<close>

lemma rnd_error:
  assumes "rnd q = Finite v"
  shows "\<bar>v - q\<bar> \<le> pow2 (expo \<bar>q\<bar>) / 2"
proof -
  define w where "w = quantize \<bar>q\<bar> (expo \<bar>q\<bar>)"
  from assms have v: "v = (if q < 0 then - w else w)"
    by (simp add: rnd_def overflow_def w_def split: if_splits)
  have "\<bar>w - \<bar>q\<bar>\<bar> \<le> pow2 (expo \<bar>q\<bar>) / 2" unfolding w_def by (rule quantize_error)
  moreover have "\<bar>v - q\<bar> = \<bar>w - \<bar>q\<bar>\<bar>" by (simp add: v abs_if)
  ultimately show ?thesis by simp
qed

lemma rne_less_pow:
  assumes "x < of_int K"
  shows "rne x \<le> K"
  using assms by (intro rne_le_int) simp

text \<open>The result of rounding is a binary64 value: rounding it again changes nothing.\<close>

lemma rnd_idem:
  assumes "rnd q = Finite v"
  shows "rnd v = Finite v"
proof -
  define a where "a = \<bar>q\<bar>"
  define e where "e = expo a"
  define m where "m = rne (a / pow2 e)"
  define w where "w = quantize a e"
  have w: "w = of_int m * pow2 e" by (simp add: w_def quantize_def m_def)
  from assms have v: "v = (if q < 0 then - w else w)" and fin: "w < pow2 1024"
    by (simp_all add: rnd_def overflow_def w_def a_def e_def split: if_splits)
  have m0: "0 \<le> m" unfolding m_def using pow2_pos [of e] by (intro rne_nonneg) (simp add: a_def)
  have e_lo: "- 1074 \<le> e" by (simp add: e_def expo_def)
  have w0: "0 \<le> w" using m0 pow2_pos [of e] by (simp add: w)
  have absv: "\<bar>v\<bar> = w" using w0 by (simp add: v)
  have "quantize w (expo w) = w"
  proof (cases "m = 0")
    case True
    then have "w = of_int 0 * pow2 (expo w)" by (simp add: w)
    then show ?thesis using quantize_exact [of 0 "expo w"] by simp
  next
    case False
    with m0 have mpos: "0 < m" by simp
    have m_up: "m \<le> 2 ^ 53"
    proof (cases "a = 0")
      case True
      then show ?thesis by (simp add: m_def rne_def ties_even_def)
    next
      case False
      then have apos: "0 < a" by (simp add: a_def)
      have "flog2 a - 52 \<le> e" by (simp add: e_def expo_def)
      then have "pow2 (flog2 a + 1) \<le> pow2 (e + 53)" by (intro pow2_mono) simp
      with flog2_bounds(2) [OF apos] have "a < pow2 (e + 53)" by linarith
      also have "\<dots> = pow2 53 * pow2 e" using pow2_add [of 53 e] by (simp add: add.commute)
      finally have "a / pow2 e < pow2 53" using pow2_pos [of e] by (simp add: field_simps)
      then have "a / pow2 e < of_int (2 ^ 53)" by (simp add: pow2_def)
      then show ?thesis unfolding m_def by (rule rne_less_pow)
    qed
    have wpos: "0 < w" using mpos pow2_pos [of e] by (simp add: w)
    show ?thesis
    proof (cases "m = 2 ^ 53")
      case True
      have "w = pow2 53 * pow2 e" by (simp add: w True pow2_def)
      then have w53: "w = pow2 (e + 53)" using pow2_add [of 53 e] by (simp add: add.commute)
      then have "flog2 w = e + 53" by (simp add: flog2_pow2)
      then have e': "expo w = e + 1" using e_lo by (simp add: expo_def)
      have p52: "pow2 52 = of_int (2 ^ 52)" by (simp add: pow2_def)
      have "pow2 (e + 53) = pow2 52 * pow2 (e + 1)"
        using pow2_add [of 52 "e + 1"] by (simp add: ac_simps)
      then have A: "w = of_int (2 ^ 52) * pow2 (e + 1)" by (simp only: w53 p52)
      have "w = of_int (2 ^ 52) * pow2 (expo w)" by (subst e') (rule A)
      then show ?thesis using quantize_exact [of "2 ^ 52" "expo w"] by simp
    next
      case False
      with m_up have "m < 2 ^ 53" by simp
      then have "(of_int m :: real) < of_int (2 ^ 53)" by (simp only: of_int_less_iff)
      then have "of_int m * pow2 e < pow2 53 * pow2 e"
        using pow2_pos [of e] by (simp add: pow2_def)
      then have "w < pow2 (e + 53)" using pow2_add [of 53 e] by (simp add: w add.commute)
      with wpos have "flog2 w < e + 53" by (rule flog2_less)
      then have e': "expo w \<le> e" using e_lo by (simp add: expo_def)
      have "pow2 e = pow2 (e - expo w) * pow2 (expo w)"
        using pow2_add [of "e - expo w" "expo w"] by simp
      moreover have "pow2 (e - expo w) = of_int (2 ^ nat (e - expo w))"
        using e' by (simp add: pow2_is_int)
      ultimately have "w = of_int (m * 2 ^ nat (e - expo w)) * pow2 (expo w)"
        by (simp add: w mult.assoc)
      then show ?thesis using quantize_exact [of "m * 2 ^ nat (e - expo w)" "expo w"] by simp
    qed
  qed
  then have "rnd v = Finite (if v < 0 then - w else w)"
    using fin by (simp add: rnd_def overflow_def absv not_le)
  moreover have "(if v < 0 then - w else w) = v" using w0 by (auto simp add: v)
  ultimately show ?thesis by simp
qed

section \<open>The loop\<close>

lemma toFinite_Finite: "\<exists>q. toFinite str2num v (Finite d) = Finite q"
  by (cases "Number str2num v") (simp_all add: toFinite_def)

lemma loop_unroll:
  assumes "N < 2 ^ 53 - 1"
  shows "y \<le> N + 1 \<Longrightarrow> n = N + 1 - y \<Longrightarrow>
    loop g r i k (Finite (of_nat N)) (Finite (of_nat y)) v rows
      = Some (rows @ rows_from g r i k n y v)"
proof (induction n arbitrary: y v rows)
  case 0
  then have "y = N + 1" by simp
  then show ?case by (subst loop.simps) simp
next
  case (Suc n)
  then have y: "y \<le> N" "Suc y \<le> N + 1" "n = N + 1 - Suc y" by simp_all
  have "Suc y < 2 ^ 53" using y(1) assms by simp
  then have "rnd (of_nat (Suc y)) = Finite (of_nat (Suc y))" by (rule rnd_nat_exact)
  then have step: "jadd (Finite (of_nat y)) (Finite 1) = Finite (of_nat (Suc y))"
    by (simp add: add.commute)
  have "loop g r i k (Finite (of_nat N)) (Finite (of_nat y)) v rows
      = loop g r i k (Finite (of_nat N)) (jadd (Finite (of_nat y)) (Finite 1))
          (advance g r i k v) (rows @ [emit r k (Finite (of_nat y)) v])"
    by (subst loop.simps) (simp add: y(1))
  also have "\<dots> = Some ((rows @ [emit r k (Finite (of_nat y)) v])
      @ rows_from g r i k n (Suc y) (advance g r i k v))"
    unfolding step by (rule Suc.IH [OF y(2) y(3)])
  finally show ?case by simp
qed

lemma Math_min_int: "Math_min (Finite (of_int a)) (Finite (of_int b)) = Finite (of_int (min a b))"
  by (simp add: Math_min_def min_def)

lemma Math_max_int: "Math_max (Finite (of_int a)) (Finite (of_int b)) = Finite (of_int (max a b))"
  by (simp add: Math_max_def max_def)

lemma years_of_eq: "years_of str2num p = Finite (of_nat (spec_length str2num p))"
proof -
  obtain q where q: "toFinite str2num (p_years p) (Finite 1) = Finite q"
    using toFinite_Finite by blast
  have "years_of str2num p
      = Math_max (Finite (of_int 1)) (Math_min (Finite (of_int 60)) (Finite (of_int \<lfloor>q\<rfloor>)))"
    by (simp add: years_of_def q)
  also have "\<dots> = Finite (of_int (clamp \<lfloor>q\<rfloor> 1 60))"
    by (simp only: Math_min_int Math_max_int clamp_def)
  also have "of_int (clamp \<lfloor>q\<rfloor> 1 60) = (of_nat (nat (clamp \<lfloor>q\<rfloor> 1 60)) :: real)"
    by (simp add: clamp_def)
  finally show ?thesis by (simp add: spec_length_def q)
qed

lemma spec_length_range: "1 \<le> spec_length str2num p \<and> spec_length str2num p \<le> 60"
  unfolding spec_length_def clamp_def by (simp add: le_nat_iff)

lemma buildRows_eq:
  "buildRows str2num p =
     Some (rows_from (toPct str2num (p_incomeGrowthPct p)) (toPct str2num (p_returnPct p))
       (toPct str2num (p_inflationPct p)) (factor_of str2num p) (spec_length str2num p) 1
       (initial str2num p))"
proof -
  have "spec_length str2num p < 2 ^ 53 - 1"
    using spec_length_range [of str2num p] by simp
  from loop_unroll [OF this, of 1 "spec_length str2num p"] show ?thesis
    using spec_length_range [of str2num p] by (simp add: buildRows_def years_of_eq)
qed

section \<open>The rows of the result\<close>

lemma length_rows_from: "length (rows_from g r i k n y v) = n"
  by (induction n arbitrary: y v) simp_all

lemma nth_rows_from:
  "j < n \<Longrightarrow> rows_from g r i k n y v ! j
     = emit r k (Finite (of_nat (y + j))) ((advance g r i k ^^ j) v)"
proof (induction n arbitrary: y v j)
  case 0
  then show ?case by simp
next
  case (Suc n)
  show ?case
  proof (cases j)
    case 0
    then show ?thesis by simp
  next
    case (Suc j')
    with Suc.prems have "j' < n" by simp
    from Suc.IH [OF this, of "Suc y" "advance g r i k v"] show ?thesis
      by (simp add: Suc funpow_swap1)
  qed
qed

lemma buildRows_nth:
  assumes "buildRows str2num p = Some rows" and "j < length rows"
  shows "rows ! j = emit (toPct str2num (p_returnPct p)) (factor_of str2num p)
    (Finite (of_nat (Suc j))) (locals_at str2num p j)"
proof -
  from assms(1) have rows: "rows = rows_from (toPct str2num (p_incomeGrowthPct p))
      (toPct str2num (p_returnPct p)) (toPct str2num (p_inflationPct p)) (factor_of str2num p)
      (spec_length str2num p) 1 (initial str2num p)"
    by (simp add: buildRows_eq)
  with assms(2) have "j < spec_length str2num p" by (simp add: length_rows_from)
  from nth_rows_from [OF this] show ?thesis
    unfolding rows locals_at_def by simp
qed

lemma locals_at_Suc:
  "locals_at str2num p (Suc j) =
     advance (toPct str2num (p_incomeGrowthPct p)) (toPct str2num (p_returnPct p))
       (toPct str2num (p_inflationPct p)) (factor_of str2num p) (locals_at str2num p j)"
  by (simp add: locals_at_def)

lemma locals_at_0: "locals_at str2num p 0 = initial str2num p"
  by (simp add: locals_at_def)

lemma emit_fields:
  "year (emit r k y v) = y"
  "incomeMonthly (emit r k y v) = round2 (cur_incomeMonthly v)"
  "expensesMonthly (emit r k y v) = round2 (cur_expensesMonthly v)"
  "deltaMonthly (emit r k y v) = round2 (deltaMonthly_raw v)"
  "contribution (emit r k y v) = round2 (contribution_raw v)"
  "capitalStart (emit r k y v) = round2 (cur_capitalStart v)"
  "interestOnStart (emit r k y v) = round2 (interestOnStart_raw r v)"
  "interestOnContribution (emit r k y v) = round2 (interestOnContribution_raw r k v)"
  "capitalEnd (emit r k y v) = round2 (capitalEnd_floored r k v)"
  by (simp_all add: emit_def)

lemma floored_eq_max:
  "capitalEnd_floored r k v = Math_max (Finite 0) (capitalEnd_raw r k v)"
  by (cases "capitalEnd_raw r k v") (auto simp add: capitalEnd_floored_def Math_max_def)

lemma floored_not_negative: "\<not> jlt (capitalEnd_floored r k v) (Finite 0)"
  by (cases "capitalEnd_raw r k v") (auto simp add: capitalEnd_floored_def)

lemma rnd_not_negative: "0 \<le> a \<Longrightarrow> \<not> jlt (rnd a) (Finite 0)"
  using rnd_nonneg [of a] by auto

lemma jadd_EPSILON_not_negative:
  "\<not> jlt x (Finite 0) \<Longrightarrow> \<not> jlt (jadd x Number_EPSILON) (Finite 0)"
  by (cases x) (simp_all add: Number_EPSILON_def rnd_not_negative)

lemma jmul_100_not_negative:
  "\<not> jlt x (Finite 0) \<Longrightarrow> \<not> jlt (jmul x (Finite 100)) (Finite 0)"
  by (cases x) (simp_all add: rnd_not_negative signed_inf_def)

lemma Math_round_not_negative:
  "\<not> jlt x (Finite 0) \<Longrightarrow> \<not> jlt (Math_round x) (Finite 0)"
  by (cases x) (simp_all add: not_less)

lemma jdiv_100_not_negative:
  "\<not> jlt x (Finite 0) \<Longrightarrow> \<not> jlt (jdiv x (Finite 100)) (Finite 0)"
  by (cases x) (simp_all add: rnd_not_negative signed_inf_def)

lemma round2_not_negative: "\<not> jlt x (Finite 0) \<Longrightarrow> \<not> jlt (round2 x) (Finite 0)"
  unfolding round2_def
  by (intro jdiv_100_not_negative Math_round_not_negative jmul_100_not_negative
      jadd_EPSILON_not_negative)

lemma round2_negative_only: "jlt (round2 x) (Finite 0) \<Longrightarrow> jlt x (Finite 0)"
  using round2_not_negative by blast

section \<open>Magnitudes the loop preserves\<close>

lemma mag_le_finite: "mag_le b x \<Longrightarrow> Number_isFinite x"
  by (cases x) simp_all

lemma mag_le_mono: "mag_le a x \<Longrightarrow> a \<le> b \<Longrightarrow> mag_le b x"
  by (cases x) simp_all

lemma mag_le_pow2_mono: "mag_le (pow2 n) x \<Longrightarrow> n \<le> m \<Longrightarrow> mag_le (pow2 m) x"
  using mag_le_mono pow2_mono by blast

lemma mag_le_rnd:
  assumes "\<bar>q\<bar> \<le> pow2 n" and "0 \<le> n" and "n \<le> 1023"
  shows "mag_le (pow2 n) (rnd q)"
proof -
  from rnd_bound [OF assms(1)] assms(2,3) obtain v where "rnd q = Finite v" "\<bar>v\<bar> \<le> pow2 n"
    by auto
  then show ?thesis by simp
qed

lemma pow2_Suc: "pow2 (n + 1) = 2 * pow2 n"
  using pow2_add [of n 1] by (simp add: pow2_def)

lemma mag_le_jadd:
  assumes "mag_le (pow2 n) x" and "mag_le (pow2 n) y" and "0 \<le> n" and "n < 1023"
  shows "mag_le (pow2 (n + 1)) (jadd x y)"
proof -
  from assms(1) obtain a where x: "x = Finite a" "\<bar>a\<bar> \<le> pow2 n" by (cases x) simp_all
  from assms(2) obtain b where y: "y = Finite b" "\<bar>b\<bar> \<le> pow2 n" by (cases y) simp_all
  have "\<bar>a + b\<bar> \<le> pow2 (n + 1)" using x(2) y(2) by (simp add: pow2_Suc)
  then have "mag_le (pow2 (n + 1)) (rnd (a + b))"
    by (rule mag_le_rnd) (use assms(3,4) in simp_all)
  then show ?thesis by (simp add: x y)
qed

lemma mag_le_jneg: "mag_le b x \<Longrightarrow> mag_le b (jneg x)"
  by (cases x) simp_all

lemma mag_le_jsub:
  assumes "mag_le (pow2 n) x" and "mag_le (pow2 n) y" and "0 \<le> n" and "n < 1023"
  shows "mag_le (pow2 (n + 1)) (jsub x y)"
  unfolding jsub_def using assms by (intro mag_le_jadd mag_le_jneg)

lemma mag_le_jmul:
  assumes "mag_le (pow2 n) x" and "mag_le (pow2 m) y" and "0 \<le> n + m" and "n + m \<le> 1023"
  shows "mag_le (pow2 (n + m)) (jmul x y)"
proof -
  from assms(1) obtain a where x: "x = Finite a" "\<bar>a\<bar> \<le> pow2 n" by (cases x) simp_all
  from assms(2) obtain b where y: "y = Finite b" "\<bar>b\<bar> \<le> pow2 m" by (cases y) simp_all
  have "\<bar>a\<bar> * \<bar>b\<bar> \<le> pow2 n * pow2 m"
    using x(2) y(2) by (intro mult_mono) (simp_all add: pow2_pos less_imp_le)
  then have "\<bar>a * b\<bar> \<le> pow2 (n + m)" by (simp add: abs_mult pow2_add)
  then have "mag_le (pow2 (n + m)) (rnd (a * b))"
    by (rule mag_le_rnd) (use assms(3,4) in simp_all)
  then show ?thesis by (simp add: x y)
qed

lemma mag_le_jdiv_100:
  assumes "mag_le (pow2 n) x" and "0 \<le> n" and "n \<le> 1023"
  shows "mag_le (pow2 n) (jdiv x (Finite 100))"
proof -
  from assms(1) obtain a where x: "x = Finite a" "\<bar>a\<bar> \<le> pow2 n" by (cases x) simp_all
  have "\<bar>a / 100\<bar> \<le> \<bar>a\<bar>" by simp
  with x(2) have "\<bar>a / 100\<bar> \<le> pow2 n" by linarith
  then have "mag_le (pow2 n) (rnd (a / 100))"
    by (rule mag_le_rnd) (use assms(2,3) in simp_all)
  then show ?thesis by (simp add: x)
qed

lemma mag_le_Math_round:
  assumes "mag_le (pow2 n) x" and "0 \<le> n"
  shows "mag_le (pow2 n) (Math_round x)"
proof -
  from assms(1) obtain a where x: "x = Finite a" "\<bar>a\<bar> \<le> pow2 n" by (cases x) simp_all
  have int: "pow2 n = of_int (2 ^ nat n)" using assms(2) by (rule pow2_is_int)
  have "a + 1 / 2 < of_int (2 ^ nat n + 1)" using x(2) by (simp add: int)
  then have "\<lfloor>a + 1 / 2\<rfloor> < 2 ^ nat n + 1" by (simp only: floor_less_iff)
  then have up: "\<lfloor>a + 1 / 2\<rfloor> \<le> 2 ^ nat n" by simp
  have "of_int (- (2 ^ nat n)) \<le> a + 1 / 2" using x(2) by (simp add: int)
  then have lo: "- (2 ^ nat n) \<le> \<lfloor>a + 1 / 2\<rfloor>" by (simp only: le_floor_iff)
  from up lo have "\<bar>\<lfloor>a + 1 / 2\<rfloor>\<bar> \<le> 2 ^ nat n" by simp
  then have "\<bar>(of_int \<lfloor>a + 1 / 2\<rfloor> :: real)\<bar> \<le> of_int (2 ^ nat n)"
    by (simp only: of_int_abs [symmetric] of_int_le_iff)
  then show ?thesis by (simp add: x int)
qed

lemma finite_round2:
  assumes "mag_le (pow2 n) x" and "0 \<le> n" and "n \<le> 1015"
  shows "Number_isFinite (round2 x)"
proof -
  have "mag_le (pow2 n) Number_EPSILON"
  proof -
    have "pow2 0 \<le> pow2 n" using assms(2) by (rule pow2_mono)
    then have "(1 :: real) \<le> pow2 n" by (simp add: pow2_def)
    moreover have "\<bar>1 / 2 ^ 52 :: real\<bar> \<le> 1" by simp
    ultimately show ?thesis by (simp add: Number_EPSILON_def)
  qed
  with assms have "mag_le (pow2 (n + 1)) (jadd x Number_EPSILON)"
    by (intro mag_le_jadd) simp_all
  moreover have "mag_le (pow2 7) (Finite 100)" by (simp add: pow2_def)
  ultimately have "mag_le (pow2 (n + 1 + 7)) (jmul (jadd x Number_EPSILON) (Finite 100))"
    using assms(2,3) by (intro mag_le_jmul) simp_all
  then have "mag_le (pow2 (n + 1 + 7)) (Math_round (jmul (jadd x Number_EPSILON) (Finite 100)))"
    using assms(2) by (intro mag_le_Math_round) simp_all
  then have "mag_le (pow2 (n + 1 + 7)) (round2 x)"
    unfolding round2_def using assms(2,3) by (intro mag_le_jdiv_100) simp_all
  then show ?thesis by (rule mag_le_finite)
qed

lemma mag_le_toPct:
  assumes "mag_le 1600 (toFinite str2num v (Finite 0))"
  shows "mag_le (pow2 4) (toPct str2num v)"
proof -
  from assms obtain a where a: "toFinite str2num v (Finite 0) = Finite a" "\<bar>a\<bar> \<le> 1600"
    by (cases "toFinite str2num v (Finite 0)") simp_all
  have "\<bar>a / 100\<bar> \<le> pow2 4" using a(2) by (simp add: pow2_def)
  then have "mag_le (pow2 4) (rnd (a / 100))" by (rule mag_le_rnd) simp_all
  then show ?thesis by (simp add: toPct_def a)
qed

lemma step_in_range:
  assumes g: "mag_le (pow2 4) g" and r: "mag_le (pow2 4) r" and i: "mag_le (pow2 4) i"
    and k: "mag_le (pow2 0) k" and inv: "in_range t v" and t: "t < 60"
  shows "in_range (Suc t) (advance g r i k v)" and "all_finite (emit r k y v)"
proof -
  define E where "E = 500 + 5 * int t"
  define F where "F = 509 + 7 * int t"
  have E: "500 \<le> E" "E \<le> 795" and F: "509 \<le> F" "F \<le> 922" and EF: "E + 9 \<le> F"
    using t by (simp_all add: E_def F_def)
  from inv have inc: "mag_le (pow2 E) (cur_incomeMonthly v)"
    and exp: "mag_le (pow2 E) (cur_expensesMonthly v)"
    and cs: "mag_le (pow2 F) (cur_capitalStart v)"
    by (simp_all add: in_range_def E_def F_def)
  define d where "d = deltaMonthly_raw v"
  define c where "c = contribution_raw v"
  define ios where "ios = interestOnStart_raw r v"
  define ioc where "ioc = interestOnContribution_raw r k v"
  define fl where "fl = capitalEnd_floored r k v"
  have twelve: "mag_le (pow2 4) (Finite 12)" and one: "mag_le (pow2 4) (Finite 1)"
    and zero: "mag_le (pow2 (F + 7)) (Finite 0)"
    by (simp_all add: pow2_def)
  have d: "mag_le (pow2 (E + 1)) d"
    unfolding d_def deltaMonthly_raw_def using mag_le_jsub [OF inc exp] E by simp
  have c: "mag_le (pow2 (E + 5)) c"
    unfolding c_def contribution_raw_def d_def [symmetric]
    using mag_le_jmul [OF d twelve] E by (simp add: ac_simps)
  have ios: "mag_le (pow2 (F + 4)) ios"
    unfolding ios_def interestOnStart_raw_def using mag_le_jmul [OF cs r] F by simp
  have cr: "mag_le (pow2 (E + 9)) (jmul c r)"
    using mag_le_jmul [OF c r] E by (simp add: ac_simps)
  have ioc0: "mag_le (pow2 (E + 9)) ioc"
    unfolding ioc_def interestOnContribution_raw_def c_def [symmetric]
    using mag_le_jmul [OF cr k] E by simp
  have ioc: "mag_le (pow2 (F + 6)) ioc"
    using ioc0 by (rule mag_le_pow2_mono) (use EF in simp)
  have cs4: "mag_le (pow2 (F + 4)) (cur_capitalStart v)"
    using cs by (rule mag_le_pow2_mono) simp
  have c4: "mag_le (pow2 (F + 4)) c"
    using c by (rule mag_le_pow2_mono) (use EF in simp)
  have s1: "mag_le (pow2 (F + 5)) (jadd (cur_capitalStart v) c)"
    using mag_le_jadd [OF cs4 c4] F by (simp add: ac_simps)
  have ios5: "mag_le (pow2 (F + 5)) ios"
    using ios by (rule mag_le_pow2_mono) simp
  have s2: "mag_le (pow2 (F + 6)) (jadd (jadd (cur_capitalStart v) c) ios)"
    using mag_le_jadd [OF s1 ios5] F by (simp add: ac_simps)
  have s3: "mag_le (pow2 (F + 7)) (jadd (jadd (jadd (cur_capitalStart v) c) ios) ioc)"
    using mag_le_jadd [OF s2 ioc] F by (simp add: ac_simps)
  have raw: "capitalEnd_raw r k v = jadd (jadd (jadd (cur_capitalStart v) c) ios) ioc"
    by (simp add: capitalEnd_raw_def c_def ios_def ioc_def)
  have fl: "mag_le (pow2 (F + 7)) fl"
    using s3 zero by (simp add: fl_def capitalEnd_floored_def raw)
  have g1: "mag_le (pow2 5) (jadd (Finite 1) g)"
    using mag_le_jadd [OF one g] by simp
  have i1: "mag_le (pow2 5) (jadd (Finite 1) i)"
    using mag_le_jadd [OF one i] by simp
  have inc': "mag_le (pow2 (E + 5)) (jmul (cur_incomeMonthly v) (jadd (Finite 1) g))"
    using mag_le_jmul [OF inc g1] E by simp
  have exp': "mag_le (pow2 (E + 5)) (jmul (cur_expensesMonthly v) (jadd (Finite 1) i))"
    using mag_le_jmul [OF exp i1] E by simp
  have "E + 5 = 500 + 5 * int (Suc t)" "F + 7 = 509 + 7 * int (Suc t)"
    by (simp_all add: E_def F_def)
  with inc' exp' fl show "in_range (Suc t) (advance g r i k v)"
    by (simp add: in_range_def advance_def fl_def)
  have "Number_isFinite (round2 (cur_incomeMonthly v))"
    using finite_round2 [OF inc] E by simp
  moreover have "Number_isFinite (round2 (cur_expensesMonthly v))"
    using finite_round2 [OF exp] E by simp
  moreover have "Number_isFinite (round2 d)"
    using finite_round2 [OF d] E by simp
  moreover have "Number_isFinite (round2 c)"
    using finite_round2 [OF c] E by simp
  moreover have "Number_isFinite (round2 (cur_capitalStart v))"
    using finite_round2 [OF cs] F by simp
  moreover have "Number_isFinite (round2 ios)"
    using finite_round2 [OF ios] F by simp
  moreover have "Number_isFinite (round2 ioc)"
    using finite_round2 [OF ioc0] E by simp
  moreover have "Number_isFinite (round2 fl)"
    using finite_round2 [OF fl] F by simp
  ultimately show "all_finite (emit r k y v)"
    by (simp add: all_finite_def emit_fields d_def c_def ios_def ioc_def fl_def)
qed

lemma rows_from_finite:
  assumes "mag_le (pow2 4) g" and "mag_le (pow2 4) r" and "mag_le (pow2 4) i"
    and "mag_le (pow2 0) k"
  shows "in_range t v \<Longrightarrow> t + n \<le> 60 \<Longrightarrow> list_all all_finite (rows_from g r i k n y v)"
proof (induction n arbitrary: t v y)
  case 0
  then show ?case by simp
next
  case (Suc n)
  then have t: "t < 60" "Suc t + n \<le> 60" by simp_all
  note step = step_in_range [OF assms Suc.prems(1) t(1)]
  from Suc.IH [OF step(1) t(2)] step(2) show ?case by simp
qed

lemma initial_in_range:
  assumes "bounded_input str2num p"
  shows "in_range 0 (initial str2num p)"
proof -
  have p: "pow2 500 = 2 ^ 500" by (simp add: pow2_def)
  from assms have inc: "mag_le (pow2 500) (toFinite str2num (p_incomeMonthly p) (Finite 0))"
    and exp: "mag_le (pow2 500) (toFinite str2num (p_expensesMonthly p) (Finite 0))"
    and cs: "mag_le (pow2 500) (toFinite str2num (p_startingCapital p) (Finite 0))"
    by (simp_all only: bounded_input_def p)
  from cs have "mag_le (pow2 509) (toFinite str2num (p_startingCapital p) (Finite 0))"
    by (rule mag_le_pow2_mono) simp
  with inc exp show ?thesis by (simp add: in_range_def initial_def)
qed

lemma bounded_rows_finite:
  assumes "bounded_input str2num p" and "buildRows str2num p = Some rows"
  shows "list_all all_finite rows"
proof -
  have k: "mag_le (pow2 0) (factor_of str2num p)"
    using assms(1) by (simp add: bounded_input_def pow2_def)
  have rates: "mag_le (pow2 4) (toPct str2num (p_incomeGrowthPct p))"
    "mag_le (pow2 4) (toPct str2num (p_returnPct p))"
    "mag_le (pow2 4) (toPct str2num (p_inflationPct p))"
    using assms(1) by (simp_all add: bounded_input_def mag_le_toPct)
  have len: "0 + spec_length str2num p \<le> 60" using spec_length_range [of str2num p] by simp
  from rows_from_finite [OF rates k initial_in_range [OF assms(1)] len, where y = 1] assms(2)
  show ?thesis by (simp add: buildRows_eq)
qed

lemma malformed_toFinite: "malformed v \<Longrightarrow> toFinite str2num v (Finite 0) = Finite 0"
  by (auto simp add: malformed_def toFinite_def)

lemma malformed_bounded:
  assumes "all_malformed p"
  shows "bounded_input str2num p"
proof -
  from assms have "malformed (p_contributionInterestFactor p)" by (simp add: all_malformed_def)
  then have "factor_of str2num p = Finite 1 \<or> factor_of str2num p = Finite 0"
    by (auto simp add: malformed_def factor_of_def toFinite_def)
  then have "mag_le 1 (factor_of str2num p)" by auto
  then show ?thesis
    using assms by (simp add: bounded_input_def all_malformed_def malformed_toFinite)
qed

section \<open>Evaluating the code on concrete inputs\<close>

lemma bitlen_numeral_simps:
  "bitlen 1 = 1"
  "bitlen (numeral Num.One) = 1"
  "bitlen (numeral (Num.Bit0 n)) = bitlen (numeral n) + 1"
  "bitlen (numeral (Num.Bit1 n)) = bitlen (numeral n) + 1"
proof -
  show "bitlen 1 = 1" by (subst compute_bitlen) simp
  then show "bitlen (numeral Num.One) = 1" by simp
  show "bitlen (numeral (Num.Bit0 n)) = bitlen (numeral n) + 1"
    by (subst compute_bitlen) simp
  show "bitlen (numeral (Num.Bit1 n)) = bitlen (numeral n) + 1"
    by (subst compute_bitlen) simp
qed

lemmas rnd_eval = rnd_def overflow_def quantize_def rne_def ties_even_def expo_def flog2_def
  pow2_def bitlen_numeral_simps lit_def

lemmas body_eval = toFinite_def toPct_def factor_of_def initial_def emit_def advance_def
  capitalEnd_floored_def capitalEnd_raw_def interestOnContribution_raw_def
  interestOnStart_raw_def contribution_raw_def deltaMonthly_raw_def jsub_def round2_def
  Number_EPSILON_def signed_inf_def

text \<open>The model on some well-known binary64 facts.\<close>

lemma binary64_examples:
  "jadd (lit (1 / 10)) (lit (2 / 10)) = lit (30000000000000004 / 10 ^ 17)"
  "jadd (lit (1 / 10)) (lit (2 / 10)) \<noteq> lit (3 / 10)"
  "jadd (Finite (2 ^ 53)) (Finite 1) = Finite (2 ^ 53)"
  "jmul (lit (10 ^ 308)) (Finite 10) = PosInf"
  "jdiv (Finite 1) (Finite 3) = Finite (6004799503160661 / 2 ^ 54)"
  "lit (1 / 10 ^ 400) = Finite 0"
  by (simp_all add: rnd_eval)

lemmas inputs_def = money_params_def huge_income_def fractional_income_def fractional_budget_def
  in_debt_def

lemmas buildRows_eval = buildRows_eq spec_length_def clamp_def body_eval


lemma scenario_B_rows:
  "buildRows str2num scenario_B = Some [\<lparr> year = Finite 1, incomeMonthly = Finite 1000,
     expensesMonthly = Finite 2000, deltaMonthly = Finite (- 1000),
     contribution = Finite (- 12000), capitalStart = Finite 5000, interestOnStart = Finite 500,
     interestOnContribution = Finite (- 600), capitalEnd = Finite 0 \<rparr>]"
  by (simp add: scenario_B_def buildRows_eval rnd_eval)

lemma scenario_B_raw:
  "capitalEnd_raw (toPct str2num (p_returnPct scenario_B)) (factor_of str2num scenario_B)
     (locals_at str2num scenario_B 0) = Finite (- 7100)"
  "interestOnContribution_raw (toPct str2num (p_returnPct scenario_B))
     (factor_of str2num scenario_B) (locals_at str2num scenario_B 0) = Finite (- 600)"
  by (simp_all add: scenario_B_def locals_at_0 body_eval rnd_eval)

lemma huge_rows:
  "buildRows str2num huge_income =
     Some [\<lparr> year = Finite 1, incomeMonthly = PosInf,
     expensesMonthly = Finite 0, deltaMonthly = PosInf,
     contribution = PosInf, capitalStart = Finite 0, interestOnStart = Finite 0,
     interestOnContribution = NaN, capitalEnd = NaN \<rparr>]"
  by (simp add: inputs_def buildRows_eval rnd_eval)

lemma carry_rows:
  "buildRows str2num
     fractional_income =
     Some [\<lparr> year = Finite 1, incomeMonthly = Finite 100,
     expensesMonthly = Finite 0, deltaMonthly = Finite 100,
     contribution = Finite 1200, capitalStart = Finite 0, interestOnStart = Finite 0,
     interestOnContribution = Finite 0, capitalEnd = Finite 1200 \<rparr>,
     \<lparr> year = Finite 2, incomeMonthly = Finite 100,
     expensesMonthly = Finite 0, deltaMonthly = Finite 100,
     contribution = Finite 1200, capitalStart = Finite 1200, interestOnStart = Finite 0,
     interestOnContribution = Finite 0, capitalEnd = lit (240001 / 100) \<rparr>]"
  by (simp add: inputs_def buildRows_eval rnd_eval numeral_2_eq_2)

lemma carry_locals:
  "cur_capitalStart (locals_at str2num
     fractional_income 1)
     = lit (12000048 / 10000)"
  "capitalEnd_floored (toPct str2num (p_returnPct
       fractional_income))
     (factor_of str2num
       fractional_income)
     (locals_at str2num
       fractional_income 0)
     = lit (12000048 / 10000)"
  by (simp_all add: inputs_def locals_at_def body_eval rnd_eval)

lemma carry_values:
  "lit (12000048 / 10000) \<noteq> Finite 1200"
  "round2 (lit (12000048 / 10000)) = Finite 1200"
  "round2 (jadd (Finite 1200) (lit (12000048 / 10000))) = Finite 2400"
  "lit (240001 / 100) \<noteq> Finite 2400"
  by (simp_all add: body_eval rnd_eval)

lemma rounding_rows:
  "buildRows str2num
     fractional_budget =
     Some [\<lparr> year = Finite 1, incomeMonthly = Finite 1000,
     expensesMonthly = lit (50001 / 100), deltaMonthly = Finite 500,
     contribution = lit (599995 / 100), capitalStart = Finite 0, interestOnStart = Finite 0,
     interestOnContribution = Finite 0, capitalEnd = lit (599995 / 100) \<rparr>]"
  by (simp add: inputs_def buildRows_eval rnd_eval)

lemma rounding_fields:
  "jsub (Finite 1000) (lit (50001 / 100)) = lit (49999 / 100)"
  "lit (49999 / 100) \<noteq> Finite 500"
  by (simp_all add: jsub_def rnd_eval)

lemma debt_rows:
  "buildRows str2num in_debt =
     Some [\<lparr> year = Finite 1, incomeMonthly = Finite 0,
     expensesMonthly = Finite 0, deltaMonthly = Finite 0,
     contribution = Finite 0, capitalStart = Finite (- 1), interestOnStart = Finite 0,
     interestOnContribution = Finite 0, capitalEnd = Finite 0 \<rparr>,
     \<lparr> year = Finite 2, incomeMonthly = Finite 0,
     expensesMonthly = Finite 0, deltaMonthly = Finite 0,
     contribution = Finite 0, capitalStart = Finite 0, interestOnStart = Finite 0,
     interestOnContribution = Finite 0, capitalEnd = Finite 0 \<rparr>]"
  by (simp add: inputs_def buildRows_eval rnd_eval numeral_2_eq_2)


lemma scenario_A_rows:
  "buildRows str2num scenario_A = Some [\<lparr> year = Finite 1, incomeMonthly = Finite 5589,
     expensesMonthly = Finite 4000, deltaMonthly = Finite 1589, contribution = Finite 19068,
     capitalStart = Finite 0, interestOnStart = Finite 0,
     interestOnContribution = lit (14301 / 10), capitalEnd = lit (204981 / 10) \<rparr>]"
  by (simp add: scenario_A_def buildRows_eval rnd_eval)

lemma scenario_A_inputs:
  "cur_capitalStart (locals_at str2num scenario_A 0) = Finite 0"
  "cur_incomeMonthly (locals_at str2num scenario_A 0) = Finite 5589"
  "cur_expensesMonthly (locals_at str2num scenario_A 0) = Finite 4000"
  "toPct str2num (p_returnPct scenario_A) = lit (15 / 100)"
  "factor_of str2num scenario_A = Finite (1 / 2)"
  by (simp_all add: scenario_A_def locals_at_0 initial_def toFinite_def toPct_def factor_of_def
      rnd_eval)

lemma scenario_B_inputs:
  "cur_capitalStart (locals_at str2num scenario_B 0) = Finite 5000"
  "cur_incomeMonthly (locals_at str2num scenario_B 0) = Finite 1000"
  "cur_expensesMonthly (locals_at str2num scenario_B 0) = Finite 2000"
  "toPct str2num (p_returnPct scenario_B) = lit (10 / 100)"
  "factor_of str2num scenario_B = Finite (1 / 2)"
  by (simp_all add: scenario_B_def locals_at_0 initial_def toFinite_def toPct_def factor_of_def
      rnd_eval)

lemma scenario_sums:
  "jadd (jadd (jadd (Finite 5000) (Finite (- 12000))) (Finite 500)) (Finite (- 600))
     = Finite (- 7100)"
  "jadd (jadd (jadd (Finite 0) (Finite 19068)) (Finite 0)) (lit (14301 / 10))
     = lit (204981 / 10)"
  "round2 (lit (204981 / 10)) = lit (204981 / 10)"
  "jle (Finite 0) (lit (204981 / 10))"
  by (simp_all add: round2_def Number_EPSILON_def rnd_eval)

lemma factor_absent_rows:
  "buildRows str2num (scenario_B\<lparr>p_contributionInterestFactor := JUndefined\<rparr>)
     = Some [\<lparr> year = Finite 1, incomeMonthly = Finite 1000,
     expensesMonthly = Finite 2000, deltaMonthly = Finite (- 1000),
     contribution = Finite (- 12000), capitalStart = Finite 5000, interestOnStart = Finite 500,
     interestOnContribution = Finite (- 1200), capitalEnd = Finite 0 \<rparr>]"
  by (simp add: scenario_B_def buildRows_eval rnd_eval)

lemma factor_invalid_rows:
  "buildRows str2num (scenario_B\<lparr>p_contributionInterestFactor := JNum NaN\<rparr>)
     = Some [\<lparr> year = Finite 1, incomeMonthly = Finite 1000,
     expensesMonthly = Finite 2000, deltaMonthly = Finite (- 1000),
     contribution = Finite (- 12000), capitalStart = Finite 5000, interestOnStart = Finite 500,
     interestOnContribution = Finite 0, capitalEnd = Finite 0 \<rparr>]"
  by (simp add: scenario_B_def buildRows_eval rnd_eval)


section \<open>Totality and finite fields\<close>

text \<open>
  C1, as amended. For every parameter object \<open>buildRows\<close> returns a non-empty list of
  rows. Every numeric field of every row is a finite Number when the coerced inputs are
  in range (the three amounts at most \<open>2\<^sup>5\<^sup>0\<^sup>0\<close>, the three percentages at most 1600 and
  the factor at most 1, in magnitude), and in particular when every property is absent,
  \<open>null\<close>, \<open>undefined\<close>, the empty string or NaN. Nothing in the code bounds its
  arithmetic, so larger inputs can overflow.
\<close>

theorem buildRows_total_finite_in_range:
  "\<exists>rows. buildRows str2num p = Some rows \<and> rows \<noteq> []
     \<and> (bounded_input str2num p \<or> all_malformed p \<longrightarrow> list_all all_finite rows)"
proof -
  obtain rows where rows: "buildRows str2num p = Some rows" by (simp add: buildRows_eq)
  have "length rows = spec_length str2num p"
    using rows unfolding buildRows_eq by (auto simp add: length_rows_from)
  then have "rows \<noteq> []" using spec_length_range [of str2num p] by auto
  moreover have "list_all all_finite rows" if "bounded_input str2num p \<or> all_malformed p"
    using that malformed_bounded [of p str2num] bounded_rows_finite [OF _ rows] by blast
  ultimately show ?thesis using rows by blast
qed

text \<open>The blank object of the repository's own test, and Scenario A, are such inputs.\<close>

theorem buildRows_total_finite_in_range_witness:
  "all_malformed scenario_D \<and> bounded_input all_NaN scenario_A
     \<and> map_option (list_all all_finite) (buildRows all_NaN scenario_D) = Some True
     \<and> map_option (list_all all_finite) (buildRows all_NaN scenario_A) = Some True"
proof -
  have D: "all_malformed scenario_D"
    by (simp add: all_malformed_def malformed_def scenario_D_def)
  have A: "bounded_input all_NaN scenario_A"
    by (simp add: bounded_input_def scenario_A_def toFinite_def factor_of_def)
  show ?thesis
    using D A buildRows_total_finite_in_range [of all_NaN scenario_D]
      buildRows_total_finite_in_range [of all_NaN scenario_A]
    by auto
qed

text \<open>
  C1 as stated fails: \<open>buildRows({incomeMonthly: 1e308})\<close> has the single row below.
  \<open>1e308 * 12\<close> and \<open>(1e308 + Number.EPSILON) * 100\<close> overflow to \<open>Infinity\<close>, and
  \<open>Infinity * 0\<close> is NaN.
\<close>

theorem buildRows_finite_counterexample:
  "Number_isFinite (lit (10 ^ 308))
   \<and> buildRows all_NaN huge_income
       = Some [\<lparr> year = Finite 1, incomeMonthly = PosInf, expensesMonthly = Finite 0,
           deltaMonthly = PosInf, contribution = PosInf, capitalStart = Finite 0,
           interestOnStart = Finite 0, interestOnContribution = NaN, capitalEnd = NaN \<rparr>]
   \<and> map_option (map all_finite) (buildRows all_NaN huge_income) = Some [False]"
proof -
  have "Number_isFinite (lit (10 ^ 308))" by (simp add: rnd_eval)
  then show ?thesis by (simp add: huge_rows all_finite_def)
qed

section \<open>Scenario A\<close>

text \<open>
  C2. For startingCapital 0, incomeMonthly 5589, expensesMonthly 4000, incomeGrowthPct 10,
  returnPct 15, inflationPct 5, years 1 and contributionInterestFactor 0.5, \<open>buildRows\<close>
  returns exactly one row, with deltaMonthly 1589, contribution 19068, interestOnStart 0,
  interestOnContribution 1430.1 and capitalEnd 20498.1 (the Numbers these literals
  denote).
\<close>

theorem scenario_A_first_year:
  "buildRows str2num scenario_A = Some [\<lparr> year = Finite 1, incomeMonthly = Finite 5589,
     expensesMonthly = Finite 4000, deltaMonthly = Finite 1589, contribution = Finite 19068,
     capitalStart = Finite 0, interestOnStart = Finite 0,
     interestOnContribution = lit (14301 / 10), capitalEnd = lit (204981 / 10) \<rparr>]"
  by (simp add: scenario_A_def buildRows_eval rnd_eval)

section \<open>The contribution interest factor\<close>

text \<open>
  C3. The coercion of contributionInterestFactor is asymmetric. When the raw value is
  \<open>null\<close>, \<open>undefined\<close> (or absent) or the empty string, the factor is exactly 1:
  \<open>buildRows\<close> returns what it returns for the same object with the factor 1, and
  every row's interestOnContribution is \<open>round2(contribution * r * 1)\<close>. When the raw
  value is present but does not convert to a finite Number, the factor is exactly 0:
  \<open>buildRows\<close> returns what it returns for the same object with the factor 0, and
  every row's interestOnContribution is \<open>round2(contribution * r * 0)\<close>. A present
  value that converts to a finite Number (an explicit 0 too) is the factor itself.
\<close>

theorem factor_coercion:
  "(p_contributionInterestFactor p = JNull \<or> p_contributionInterestFactor p = JUndefined
      \<or> p_contributionInterestFactor p = JStr []
    \<longrightarrow> factor_of str2num p = Finite 1
      \<and> buildRows str2num p
          = buildRows str2num (p\<lparr>p_contributionInterestFactor := JNum (Finite 1)\<rparr>)
      \<and> (\<forall>rows j. buildRows str2num p = Some rows \<and> j < length rows \<longrightarrow>
            interestOnContribution (rows ! j)
              = round2 (jmul (jmul (jmul (jsub (cur_incomeMonthly (locals_at str2num p j))
                    (cur_expensesMonthly (locals_at str2num p j))) (Finite 12))
                  (toPct str2num (p_returnPct p))) (Finite 1))))
   \<and> (p_contributionInterestFactor p \<noteq> JNull \<and> p_contributionInterestFactor p \<noteq> JUndefined
      \<and> p_contributionInterestFactor p \<noteq> JStr []
      \<and> \<not> Number_isFinite (Number str2num (p_contributionInterestFactor p))
    \<longrightarrow> factor_of str2num p = Finite 0
      \<and> buildRows str2num p
          = buildRows str2num (p\<lparr>p_contributionInterestFactor := JNum (Finite 0)\<rparr>)
      \<and> (\<forall>rows j. buildRows str2num p = Some rows \<and> j < length rows \<longrightarrow>
            interestOnContribution (rows ! j)
              = round2 (jmul (jmul (jmul (jsub (cur_incomeMonthly (locals_at str2num p j))
                    (cur_expensesMonthly (locals_at str2num p j))) (Finite 12))
                  (toPct str2num (p_returnPct p))) (Finite 0))))
   \<and> (p_contributionInterestFactor p \<noteq> JNull \<and> p_contributionInterestFactor p \<noteq> JUndefined
      \<and> p_contributionInterestFactor p \<noteq> JStr []
      \<and> Number_isFinite (Number str2num (p_contributionInterestFactor p))
    \<longrightarrow> factor_of str2num p = Number str2num (p_contributionInterestFactor p))"
proof -
  have field: "interestOnContribution (rows ! j)
      = round2 (jmul (jmul (jmul (jsub (cur_incomeMonthly (locals_at str2num p j))
            (cur_expensesMonthly (locals_at str2num p j))) (Finite 12))
          (toPct str2num (p_returnPct p))) (factor_of str2num p))"
    if "buildRows str2num p = Some rows" "j < length rows" for rows j
    by (simp add: buildRows_nth [OF that] emit_fields interestOnContribution_raw_def
        contribution_raw_def deltaMonthly_raw_def)
  have absent: "factor_of str2num p = Finite 1"
    if "p_contributionInterestFactor p = JNull \<or> p_contributionInterestFactor p = JUndefined
      \<or> p_contributionInterestFactor p = JStr []"
    using that by (auto simp add: factor_of_def)
  have invalid: "factor_of str2num p = Finite 0"
    if "p_contributionInterestFactor p \<noteq> JNull" "p_contributionInterestFactor p \<noteq> JUndefined"
      "p_contributionInterestFactor p \<noteq> JStr []"
      "\<not> Number_isFinite (Number str2num (p_contributionInterestFactor p))"
    using that by (simp add: factor_of_def toFinite_def)
  have valid: "factor_of str2num p = Number str2num (p_contributionInterestFactor p)"
    if "p_contributionInterestFactor p \<noteq> JNull" "p_contributionInterestFactor p \<noteq> JUndefined"
      "p_contributionInterestFactor p \<noteq> JStr []"
      "Number_isFinite (Number str2num (p_contributionInterestFactor p))"
    using that by (simp add: factor_of_def toFinite_def)
  have same: "buildRows str2num p
      = buildRows str2num (p\<lparr>p_contributionInterestFactor := JNum (Finite a)\<rparr>)"
    if "factor_of str2num p = Finite a" for a
    using that by (simp add: buildRows_def factor_of_def years_of_def initial_def toFinite_def)
  show ?thesis
    using field absent invalid valid same by metis
qed

text \<open>
  Scenario B with the factor absent, \<open>null\<close>, empty, NaN, the string \<open>1,5\<close> and an
  explicit 0: interestOnContribution is \<open>-1200\<close> for the first three and \<open>0\<close> for the
  others.
\<close>

theorem factor_coercion_witness:
  "factor_of all_NaN (scenario_B\<lparr>p_contributionInterestFactor := JUndefined\<rparr>) = Finite 1
   \<and> factor_of all_NaN (scenario_B\<lparr>p_contributionInterestFactor := JNull\<rparr>) = Finite 1
   \<and> factor_of all_NaN (scenario_B\<lparr>p_contributionInterestFactor := JStr []\<rparr>) = Finite 1
   \<and> factor_of all_NaN (scenario_B\<lparr>p_contributionInterestFactor := JNum NaN\<rparr>) = Finite 0
   \<and> factor_of all_NaN (scenario_B\<lparr>p_contributionInterestFactor := JStr ''1,5''\<rparr>) = Finite 0
   \<and> factor_of all_NaN (scenario_B\<lparr>p_contributionInterestFactor := JNum (Finite 0)\<rparr>)
       = Finite 0
   \<and> map_option (map interestOnContribution)
         (buildRows all_NaN (scenario_B\<lparr>p_contributionInterestFactor := JUndefined\<rparr>))
       = Some [Finite (- 1200)]
   \<and> map_option (map interestOnContribution)
         (buildRows all_NaN (scenario_B\<lparr>p_contributionInterestFactor := JStr []\<rparr>))
       = Some [Finite (- 1200)]
   \<and> map_option (map interestOnContribution)
         (buildRows all_NaN (scenario_B\<lparr>p_contributionInterestFactor := JNum (Finite 1)\<rparr>))
       = Some [Finite (- 1200)]
   \<and> map_option (map interestOnContribution)
         (buildRows all_NaN (scenario_B\<lparr>p_contributionInterestFactor := JNum NaN\<rparr>))
       = Some [Finite 0]
   \<and> map_option (map interestOnContribution)
         (buildRows all_NaN (scenario_B\<lparr>p_contributionInterestFactor := JStr ''1,5''\<rparr>))
       = Some [Finite 0]
   \<and> map_option (map interestOnContribution)
         (buildRows all_NaN (scenario_B\<lparr>p_contributionInterestFactor := JNum (Finite 0)\<rparr>))
       = Some [Finite 0]
   \<and> Finite (- 1200) = round2 (jmul (jmul (jmul (jsub (Finite 1000) (Finite 2000)) (Finite 12))
         (lit (10 / 100))) (Finite 1))
   \<and> Finite 0 = round2 (jmul (jmul (jmul (jsub (Finite 1000) (Finite 2000)) (Finite 12))
         (lit (10 / 100))) (Finite 0))"
proof -
  have r: "Finite (- 1200) = round2 (jmul (jmul (jmul (jsub (Finite 1000) (Finite 2000))
      (Finite 12)) (lit (10 / 100))) (Finite 1))"
    "Finite 0 = round2 (jmul (jmul (jmul (jsub (Finite 1000) (Finite 2000)) (Finite 12))
      (lit (10 / 100))) (Finite 0))"
    by (simp_all add: jsub_def round2_def Number_EPSILON_def rnd_eval)
  show ?thesis
    using r factor_absent_rows [of all_NaN] factor_invalid_rows [of all_NaN]
      factor_coercion [of "scenario_B\<lparr>p_contributionInterestFactor := JUndefined\<rparr>" all_NaN]
      factor_coercion [of "scenario_B\<lparr>p_contributionInterestFactor := JNull\<rparr>" all_NaN]
      factor_coercion [of "scenario_B\<lparr>p_contributionInterestFactor := JStr []\<rparr>" all_NaN]
      factor_coercion [of "scenario_B\<lparr>p_contributionInterestFactor := JNum NaN\<rparr>" all_NaN]
      factor_coercion [of "scenario_B\<lparr>p_contributionInterestFactor := JStr ''1,5''\<rparr>" all_NaN]
      factor_coercion [of "scenario_B\<lparr>p_contributionInterestFactor := JNum (Finite 0)\<rparr>" all_NaN]
    by (simp add: all_NaN_def)
qed

section \<open>The length of the result\<close>

text \<open>
  C4. For every parameter object \<open>buildRows\<close> returns, and the number of rows is
  \<open>clamp(floor(toFinite(years, 1)), 1, 60)\<close>: whatever \<open>years\<close> holds (zero, negative,
  fractional, malformed, absent) it is clamped into 1..60 and never rejected, so the
  result has between 1 and 60 rows.
\<close>

theorem buildRows_length:
  "\<exists>rows. buildRows str2num p = Some rows
     \<and> length rows = spec_length str2num p
     \<and> 1 \<le> length rows \<and> length rows \<le> 60"
  using spec_length_range [of str2num p] by (simp add: buildRows_eq length_rows_from)

section \<open>The floor at zero\<close>

text \<open>
  C5. In every row, capitalEnd is \<open>max(0, capitalStart + contribution + interestOnStart +
  interestOnContribution)\<close> of that year's running values, rounded, where contribution is
  \<open>(incomeMonthly - expensesMonthly) * 12\<close>, interestOnStart is \<open>capitalStart * r\<close> and
  interestOnContribution is \<open>contribution * r * k\<close>, and the row shows each of the four
  terms rounded. The floor is applied once per year, before the rounding and before the
  value is carried into the next year. So no row's capitalEnd is negative: it is \<open>0\<close> or
  more, or else NaN (which the sum can be only after an overflow).
\<close>

theorem capitalEnd_floor:
  assumes "buildRows str2num p = Some rows" and "j < length rows"
  shows "(let v = locals_at str2num p j; r = toPct str2num (p_returnPct p);
              k = factor_of str2num p;
              start = cur_capitalStart v;
              contrib = jmul (jsub (cur_incomeMonthly v) (cur_expensesMonthly v)) (Finite 12);
              onStart = jmul start r;
              onContrib = jmul (jmul contrib r) k
          in capitalEnd (rows ! j)
               = round2 (Math_max (Finite 0) (jadd (jadd (jadd start contrib) onStart) onContrib))
           \<and> cur_capitalStart (locals_at str2num p (Suc j))
               = Math_max (Finite 0) (jadd (jadd (jadd start contrib) onStart) onContrib)
           \<and> capitalStart (rows ! j) = round2 start
           \<and> contribution (rows ! j) = round2 contrib
           \<and> interestOnStart (rows ! j) = round2 onStart
           \<and> interestOnContribution (rows ! j) = round2 onContrib)
    \<and> \<not> jlt (capitalEnd (rows ! j)) (Finite 0)
    \<and> (capitalEnd (rows ! j) \<noteq> NaN \<longrightarrow> jle (Finite 0) (capitalEnd (rows ! j)))"
proof -
  have n: "\<not> jlt (capitalEnd (rows ! j)) (Finite 0)"
    using round2_not_negative [OF floored_not_negative]
    by (simp add: buildRows_nth [OF assms] emit_fields)
  then have "capitalEnd (rows ! j) \<noteq> NaN \<longrightarrow> jle (Finite 0) (capitalEnd (rows ! j))"
    by (cases "capitalEnd (rows ! j)") simp_all
  with n show ?thesis
    by (simp add: buildRows_nth [OF assms] emit_fields locals_at_Suc advance_def
        floored_eq_max capitalEnd_raw_def interestOnContribution_raw_def
        interestOnStart_raw_def contribution_raw_def deltaMonthly_raw_def Let_def)
qed

text \<open>
  Scenario B: the sum is \<open>-7100\<close> and the year ends at \<open>0\<close>. Scenario A: the sum is
  \<open>20498.1\<close> and so is the end of the year.
\<close>

theorem capitalEnd_floor_witness:
  "buildRows all_NaN scenario_B = Some [\<lparr> year = Finite 1, incomeMonthly = Finite 1000,
     expensesMonthly = Finite 2000, deltaMonthly = Finite (- 1000),
     contribution = Finite (- 12000), capitalStart = Finite 5000, interestOnStart = Finite 500,
     interestOnContribution = Finite (- 600), capitalEnd = Finite 0 \<rparr>]
   \<and> jadd (jadd (jadd (Finite 5000) (Finite (- 12000))) (Finite 500)) (Finite (- 600))
       = Finite (- 7100)
   \<and> Finite 0 = round2 (Math_max (Finite 0) (Finite (- 7100)))
   \<and> cur_capitalStart (locals_at all_NaN scenario_B 1) = Finite 0
   \<and> \<not> jlt (Finite 0) (Finite 0) \<and> jle (Finite 0) (Finite 0)
   \<and> buildRows all_NaN scenario_A = Some [\<lparr> year = Finite 1, incomeMonthly = Finite 5589,
     expensesMonthly = Finite 4000, deltaMonthly = Finite 1589, contribution = Finite 19068,
     capitalStart = Finite 0, interestOnStart = Finite 0,
     interestOnContribution = lit (14301 / 10), capitalEnd = lit (204981 / 10) \<rparr>]
   \<and> jadd (jadd (jadd (Finite 0) (Finite 19068)) (Finite 0)) (lit (14301 / 10))
       = lit (204981 / 10)
   \<and> lit (204981 / 10) = round2 (Math_max (Finite 0) (lit (204981 / 10)))
   \<and> cur_capitalStart (locals_at all_NaN scenario_A 1) = lit (204981 / 10)
   \<and> jle (Finite 0) (lit (204981 / 10))"
proof -
  have B: "cur_capitalStart (locals_at all_NaN scenario_B 1) = Finite 0"
    using capitalEnd_floor [OF scenario_B_rows, of 0 all_NaN, THEN conjunct1]
      scenario_B_inputs [of all_NaN]
    by (simp add: Let_def jsub_def Math_max_def rnd_eval)
  have A: "cur_capitalStart (locals_at all_NaN scenario_A 1) = lit (204981 / 10)"
    using capitalEnd_floor [OF scenario_A_rows, of 0 all_NaN, THEN conjunct1]
      scenario_A_inputs [of all_NaN]
    by (simp add: Let_def jsub_def Math_max_def rnd_eval)
  have m: "Math_max (Finite 0) (Finite (- 7100)) = Finite 0"
    "Math_max (Finite 0) (lit (204981 / 10)) = lit (204981 / 10)"
    "round2 (Finite 0) = Finite 0"
    by (simp_all add: Math_max_def round2_def Number_EPSILON_def rnd_eval)
  show ?thesis
    using A B m scenario_sums scenario_A_rows [of all_NaN] scenario_B_rows [of all_NaN]
    by simp
qed

section \<open>Chained state\<close>

text \<open>
  C6, as amended. In a result of \<open>N\<close> rows, for every \<open>i\<close> in \<open>2..N\<close> the capitalStart
  field of row \<open>i\<close> equals the capitalEnd field of row \<open>i - 1\<close>: both are \<open>round2\<close> of the
  value carried into iteration \<open>i\<close>, and that value is the floored capitalEnd of year
  \<open>i - 1\<close> before rounding (\<open>capitalStart = capitalEnd\<close> assigns the variable, not the
  rounded field). The year fields are \<open>1, 2, ..., N\<close> in this order.
\<close>

theorem capitalStart_chained:
  assumes "buildRows str2num p = Some rows"
  shows "(\<forall>j. Suc j < length rows \<longrightarrow>
            capitalStart (rows ! Suc j) = capitalEnd (rows ! j)
          \<and> capitalStart (rows ! Suc j) = round2 (cur_capitalStart (locals_at str2num p (Suc j)))
          \<and> cur_capitalStart (locals_at str2num p (Suc j))
              = capitalEnd_floored (toPct str2num (p_returnPct p)) (factor_of str2num p)
                  (locals_at str2num p j))
       \<and> map year rows = map (\<lambda>i. Finite (of_nat (Suc i))) [0..<length rows]"
proof -
  have chain: "capitalStart (rows ! Suc j) = capitalEnd (rows ! j)
      \<and> capitalStart (rows ! Suc j) = round2 (cur_capitalStart (locals_at str2num p (Suc j)))
      \<and> cur_capitalStart (locals_at str2num p (Suc j))
          = capitalEnd_floored (toPct str2num (p_returnPct p)) (factor_of str2num p)
              (locals_at str2num p j)"
    if "Suc j < length rows" for j
  proof -
    from that have j: "j < length rows" by simp
    show ?thesis
      by (simp add: buildRows_nth [OF assms that] buildRows_nth [OF assms j] emit_fields
          locals_at_Suc advance_def)
  qed
  have "map year rows = map (\<lambda>i. Finite (of_nat (Suc i))) [0..<length rows]"
  proof (rule nth_equalityI)
    show "length (map year rows) = length (map (\<lambda>i. Finite (of_nat (Suc i))) [0..<length rows])"
      by simp
    fix j
    assume "j < length (map year rows)"
    then have j: "j < length rows" by simp
    then show "map year rows ! j = map (\<lambda>i. Finite (of_nat (Suc i))) [0..<length rows] ! j"
      by (simp add: buildRows_nth [OF assms j] emit_fields del: of_nat_Suc)
  qed
  with chain show ?thesis by blast
qed

text \<open>An income of \<open>100.0004\<close> over two years: \<open>1200.0048\<close> is carried, \<open>1200\<close> shown.\<close>

theorem capitalStart_chained_witness:
  "map_option (map capitalStart) (buildRows all_NaN fractional_income)
     = Some [Finite 0, Finite 1200]
   \<and> map_option (map capitalEnd) (buildRows all_NaN fractional_income)
     = Some [Finite 1200, lit (240001 / 100)]
   \<and> Finite 1200 = round2 (lit (12000048 / 10000))
   \<and> cur_capitalStart (locals_at all_NaN fractional_income 1) = lit (12000048 / 10000)
   \<and> map_option (map year) (buildRows all_NaN fractional_income) = Some [Finite 1, Finite 2]"
  using capitalStart_chained [OF carry_rows, of all_NaN] carry_rows [of all_NaN]
    carry_locals [of all_NaN] carry_values
  by simp

text \<open>
  C6 as stated fails where it says that the rounded capitalEnd is carried. For
  \<open>buildRows({incomeMonthly: 100.0004, years: 2})\<close> the first row shows capitalEnd
  \<open>1200\<close> while the second iteration starts from \<open>1200.0048\<close>; the second row shows
  capitalEnd \<open>2400.01\<close>, where \<open>1200 + 1200.0048\<close> would have shown \<open>2400\<close>.
\<close>

theorem rounded_carry_counterexample:
  "map_option (map capitalEnd) (buildRows all_NaN fractional_income)
     = Some [Finite 1200, lit (240001 / 100)]
   \<and> cur_capitalStart (locals_at all_NaN fractional_income 1) = lit (12000048 / 10000)
   \<and> lit (12000048 / 10000) \<noteq> Finite 1200
   \<and> round2 (jadd (Finite 1200) (lit (12000048 / 10000))) = Finite 2400
   \<and> lit (240001 / 100) \<noteq> Finite 2400"
  using carry_rows [of all_NaN] carry_locals [of all_NaN] carry_values by simp

section \<open>Growth and inflation\<close>


section \<open>The monthly delta\<close>

text \<open>
  C8, as amended. In every row the deltaMonthly field is \<open>round2\<close> of the difference of
  the year's unrounded income and expenses, whose own \<open>round2\<close> are the incomeMonthly and
  expensesMonthly fields: \<open>deltaMonthly = incomeMonthly - expensesMonthly\<close> holds between
  the variables of the loop body, and the three fields are rounded independently.
\<close>

theorem deltaMonthly_of_unrounded:
  assumes "buildRows str2num p = Some rows" and "j < length rows"
  shows "incomeMonthly (rows ! j) = round2 (cur_incomeMonthly (locals_at str2num p j))
    \<and> expensesMonthly (rows ! j) = round2 (cur_expensesMonthly (locals_at str2num p j))
    \<and> deltaMonthly (rows ! j)
        = round2 (jsub (cur_incomeMonthly (locals_at str2num p j))
            (cur_expensesMonthly (locals_at str2num p j)))"
  by (simp add: buildRows_nth [OF assms] emit_fields deltaMonthly_raw_def)

theorem deltaMonthly_of_unrounded_witness:
  "cur_incomeMonthly (locals_at all_NaN fractional_budget 0) = lit (1000004 / 1000)
   \<and> cur_expensesMonthly (locals_at all_NaN fractional_budget 0) = lit (500008 / 1000)
   \<and> map_option (map incomeMonthly) (buildRows all_NaN fractional_budget)
       = Some [round2 (lit (1000004 / 1000))]
   \<and> map_option (map expensesMonthly) (buildRows all_NaN fractional_budget)
       = Some [round2 (lit (500008 / 1000))]
   \<and> map_option (map deltaMonthly) (buildRows all_NaN fractional_budget)
       = Some [round2 (jsub (lit (1000004 / 1000)) (lit (500008 / 1000)))]"
proof -
  have v: "cur_incomeMonthly (locals_at all_NaN fractional_budget 0) = lit (1000004 / 1000)"
    "cur_expensesMonthly (locals_at all_NaN fractional_budget 0) = lit (500008 / 1000)"
    by (simp_all add: locals_at_0 initial_def toFinite_def inputs_def rnd_eval)
  show ?thesis
    using deltaMonthly_of_unrounded [OF rounding_rows, of 0 all_NaN] v rounding_rows [of all_NaN]
    by simp
qed

text \<open>
  C8 as stated fails between the fields. For
  \<open>buildRows({incomeMonthly: 1000.004, expensesMonthly: 500.008})\<close> the row shows
  incomeMonthly \<open>1000\<close>, expensesMonthly \<open>500.01\<close> and deltaMonthly \<open>500\<close>, and
  \<open>1000 - 500.01\<close> is \<open>499.99\<close>.
\<close>

theorem delta_identity_counterexample:
  "map_option (map incomeMonthly) (buildRows all_NaN fractional_budget) = Some [Finite 1000]
   \<and> map_option (map expensesMonthly) (buildRows all_NaN fractional_budget)
       = Some [lit (50001 / 100)]
   \<and> map_option (map deltaMonthly) (buildRows all_NaN fractional_budget) = Some [Finite 500]
   \<and> jsub (Finite 1000) (lit (50001 / 100)) = lit (49999 / 100)
   \<and> lit (49999 / 100) \<noteq> Finite 500
   \<and> map_option (map delta_identity) (buildRows all_NaN fractional_budget) = Some [False]"
  using rounding_fields rounding_rows [of all_NaN] by (simp add: delta_identity_def)

section \<open>Rounding of the fields\<close>

text \<open>
  C9. Each of the eight numeric fields of every row is \<open>round2\<close> of the corresponding
  unrounded quantity of that year, where \<open>round2(x)\<close> is
  \<open>Math.round((x + Number.EPSILON) * 100) / 100\<close> and \<open>Math.round\<close> sends a half up.
\<close>

theorem fields_rounded:
  assumes "buildRows str2num p = Some rows" and "j < length rows"
  shows "(let v = locals_at str2num p j; r = toPct str2num (p_returnPct p);
              k = factor_of str2num p
          in incomeMonthly (rows ! j) = round2 (cur_incomeMonthly v)
           \<and> expensesMonthly (rows ! j) = round2 (cur_expensesMonthly v)
           \<and> deltaMonthly (rows ! j) = round2 (deltaMonthly_raw v)
           \<and> contribution (rows ! j) = round2 (contribution_raw v)
           \<and> capitalStart (rows ! j) = round2 (cur_capitalStart v)
           \<and> interestOnStart (rows ! j) = round2 (interestOnStart_raw r v)
           \<and> interestOnContribution (rows ! j) = round2 (interestOnContribution_raw r k v)
           \<and> capitalEnd (rows ! j) = round2 (capitalEnd_floored r k v))
    \<and> (\<forall>x. round2 x
          = jdiv (Math_round (jmul (jadd x (Finite (1 / 2 ^ 52))) (Finite 100))) (Finite 100))
    \<and> (\<forall>n. Math_round (Finite (of_int n + 1 / 2)) = Finite (of_int n + 1))"
proof -
  have "\<lfloor>real_of_int n + 1 / 2 + 1 / 2\<rfloor> = n + 1" for n
  proof -
    have "real_of_int n + 1 / 2 + 1 / 2 = of_int (n + 1)" by simp
    then show ?thesis by (simp only: floor_of_int)
  qed
  then have "Math_round (Finite (of_int n + 1 / 2)) = Finite (of_int n + 1)" for n
    by simp
  then show ?thesis
    by (simp add: buildRows_nth [OF assms] emit_fields round2_def Number_EPSILON_def Let_def)
qed

theorem fields_rounded_witness:
  "buildRows all_NaN scenario_B = Some [\<lparr> year = Finite 1, incomeMonthly = Finite 1000,
     expensesMonthly = Finite 2000, deltaMonthly = Finite (- 1000),
     contribution = Finite (- 12000), capitalStart = Finite 5000, interestOnStart = Finite 500,
     interestOnContribution = Finite (- 600), capitalEnd = Finite 0 \<rparr>]
   \<and> interestOnContribution_raw (toPct all_NaN (p_returnPct scenario_B))
        (factor_of all_NaN scenario_B) (locals_at all_NaN scenario_B 0) = Finite (- 600)
   \<and> Finite (- 600) = round2 (Finite (- 600))
   \<and> Math_round (Finite (5 / 2)) = Finite 3 \<and> Math_round (Finite (- 5 / 2)) = Finite (- 2)"
proof -
  have r: "Math_round (Finite (5 / 2)) = Finite 3 \<and> Math_round (Finite (- 5 / 2)) = Finite (- 2)"
    by simp
  have "Finite (- 600) = round2 (interestOnContribution_raw (toPct all_NaN (p_returnPct scenario_B))
      (factor_of all_NaN scenario_B) (locals_at all_NaN scenario_B 0))"
    using fields_rounded [OF scenario_B_rows, of 0 all_NaN, THEN conjunct1]
    by (simp add: Let_def)
  then show ?thesis
    using r scenario_B_rows [of all_NaN] scenario_B_raw [of all_NaN] by simp
qed

section \<open>The sign of the starting capital\<close>

text \<open>
  C10. In every row after the first the capitalStart field is not negative (it is \<open>0\<close>
  or more, or else NaN, which it can be only after an overflow): it is chained from the
  floored capitalEnd of the year before. Only the first row can show a negative
  capitalStart, and then the coerced startingCapital is negative.
\<close>

theorem capitalStart_negative_only_first:
  assumes "buildRows str2num p = Some rows"
  shows "(\<forall>j. 0 < j \<and> j < length rows \<longrightarrow>
            \<not> jlt (capitalStart (rows ! j)) (Finite 0)
          \<and> (capitalStart (rows ! j) \<noteq> NaN \<longrightarrow> jle (Finite 0) (capitalStart (rows ! j))))
    \<and> (\<forall>j. j < length rows \<and> jlt (capitalStart (rows ! j)) (Finite 0)
          \<longrightarrow> j = 0 \<and> jlt (toFinite str2num (p_startingCapital p) (Finite 0)) (Finite 0))"
proof -
  have later: "\<not> jlt (capitalStart (rows ! j)) (Finite 0)" if "0 < j" "j < length rows" for j
  proof -
    from that(1) obtain i where j: "j = Suc i" by (cases j) simp_all
    have "capitalStart (rows ! j)
        = round2 (capitalEnd_floored (toPct str2num (p_returnPct p)) (factor_of str2num p)
            (locals_at str2num p i))"
      unfolding buildRows_nth [OF assms that(2)]
      by (simp add: emit_fields j locals_at_Suc advance_def)
    then show ?thesis
      using round2_not_negative [OF floored_not_negative] by simp
  qed
  have sign: "x \<noteq> NaN \<longrightarrow> jle (Finite 0) x" if "\<not> jlt x (Finite 0)" for x
    using that by (cases x) simp_all
  have first: "jlt (toFinite str2num (p_startingCapital p) (Finite 0)) (Finite 0)"
    if "0 < length rows" "jlt (capitalStart (rows ! 0)) (Finite 0)"
  proof -
    have "capitalStart (rows ! 0) = round2 (toFinite str2num (p_startingCapital p) (Finite 0))"
      by (simp add: buildRows_nth [OF assms that(1)] emit_fields locals_at_0 initial_def)
    with that(2) show ?thesis using round2_negative_only by simp
  qed
  from later sign first show ?thesis by (metis gr0I)
qed

text \<open>A starting capital of \<open>-1\<close> shows in the first row and is floored away after it.\<close>

theorem capitalStart_negative_only_first_witness:
  "map_option (map capitalStart) (buildRows all_NaN in_debt) = Some [Finite (- 1), Finite 0]
   \<and> jlt (Finite (- 1)) (Finite 0) \<and> \<not> jlt (Finite 0) (Finite 0)
   \<and> jle (Finite 0) (Finite 0)
   \<and> toFinite all_NaN (p_startingCapital in_debt) (Finite 0) = Finite (- 1)"
proof -
  have "toFinite all_NaN (p_startingCapital in_debt) (Finite 0) = Finite (- 1)"
    by (simp add: toFinite_def inputs_def)
  then show ?thesis
    using capitalStart_negative_only_first [OF debt_rows, of all_NaN] debt_rows [of all_NaN]
    by simp
qed

end
